theory Spec2Isabelle
  imports Complex_Main
begin

section \<open>Python values\<close>

text \<open>
  Exceptions are values.  Every function of the source that can raise returns
  \<open>exn + 'a\<close>, with \<open>Inl\<close> the exception.  \<open>ProviderError\<close> stands for whatever an
  external provider call raises (HTTP status errors, SDK errors, time-outs).
\<close>

datatype exn =
    KeyError string
  | IndexError
  | ValueError string
  | TypeError
  | AttributeError string
  | RuntimeError string
  | ProviderError string

definition ebind :: "exn + 'a \<Rightarrow> ('a \<Rightarrow> exn + 'b) \<Rightarrow> exn + 'b" where
  "ebind m f = (case m of Inl e \<Rightarrow> Inl e | Inr x \<Rightarrow> f x)"

text \<open>
  A Python \<open>str\<close> is modelled as a \<open>string\<close> whose characters are the code points below
  256.  \<open>str.strip()\<close> removes the white space of \<open>str.isspace\<close> at both ends; below 256
  these are tab, line feed, vertical tab, form feed, carriage return, the separators
  28 to 31, the space, NEL (133) and the no-break space (160).
\<close>

definition isspace :: "char \<Rightarrow> bool" where
  "isspace c = ((of_char c :: nat) \<in> set [9, 10, 11, 12, 13, 28, 29, 30, 31, 32, 133, 160])"

definition strip :: "string \<Rightarrow> string" where
  "strip s = rev (dropWhile isspace (rev (dropWhile isspace s)))"

text \<open>Slices \<open>xs[a:b]\<close> and \<open>xs[a:]\<close> with Python's treatment of negative and large indices.\<close>

definition norm_index :: "int \<Rightarrow> nat \<Rightarrow> nat" where
  "norm_index k n = (if k < 0 then nat (max (k + int n) 0) else min (nat k) n)"

definition slice :: "int \<Rightarrow> int \<Rightarrow> 'a list \<Rightarrow> 'a list" where
  "slice a b xs =
     (let lo = norm_index a (length xs); hi = norm_index b (length xs)
      in take (hi - lo) (drop lo xs))"

definition slice_from :: "int \<Rightarrow> 'a list \<Rightarrow> 'a list" where
  "slice_from a xs = drop (norm_index a (length xs)) xs"

text \<open>\<open>list.pop()\<close>: the list without its last element, IndexError on the empty list.\<close>

definition pop :: "'a list \<Rightarrow> exn + 'a list" where
  "pop xs = (if xs = [] then Inl IndexError else Inr (butlast xs))"

text \<open>\<open>range(start, stop, step)\<close> as the list of its values.\<close>

function range_up :: "int \<Rightarrow> int \<Rightarrow> int \<Rightarrow> int list" where
  "range_up i stop step =
     (if 0 < step \<and> i < stop then i # range_up (i + step) stop step else [])"
  by pat_completeness auto
termination
  by (relation "measure (\<lambda>(i, stop, step). nat (stop - i))") auto

function range_down :: "int \<Rightarrow> int \<Rightarrow> int \<Rightarrow> int list" where
  "range_down i stop step =
     (if step < 0 \<and> stop < i then i # range_down (i + step) stop step else [])"
  by pat_completeness auto
termination
  by (relation "measure (\<lambda>(i, stop, step). nat (i - stop))") auto

definition py_range :: "int \<Rightarrow> int \<Rightarrow> int \<Rightarrow> exn + int list" where
  "py_range start stop step =
     (if step = 0 then Inl (ValueError ''range() arg 3 must not be zero'')
      else if 0 < step then Inr (range_up start stop step)
      else Inr (range_down start stop step))"

section \<open>config.py\<close>

text \<open>
  The module-level values of \<open>config.py\<close> after the environment was read;
  \<open>AI_PROVIDER\<close> is the value after \<open>.lower()\<close>.
\<close>

record config =
  TELEGRAM_BOT_TOKEN :: string
  AI_PROVIDER :: string
  AI_API_KEY :: string
  AI_MODEL :: string
  MAX_HISTORY :: int

definition DEFAULT_MODELS :: "(string \<times> string) list" where
  "DEFAULT_MODELS =
     [(''openai'', ''gpt-4o''),
      (''gemini'', ''gemini-1.5-pro''),
      (''anthropic'', ''claude-3-5-sonnet-20241022''),
      (''openrouter'', ''google/gemini-2.0-flash-001'')]"

definition get_model :: "config \<Rightarrow> string" where
  "get_model cfg =
     (if AI_MODEL cfg \<noteq> [] then AI_MODEL cfg
      else case map_of DEFAULT_MODELS (AI_PROVIDER cfg) of
             Some m \<Rightarrow> m
           | None \<Rightarrow> ''google/gemini-2.0-flash-001'')"

section \<open>ai_handler.py\<close>

subsection \<open>Internal history and wire values\<close>

text \<open>
  A part is a Python dict from strings to strings, kept as an association list;
  \<open>part[k]\<close> raises KeyError on a missing key.  A history item is the dict
  \<open>{"role": ..., "content": ...}\<close>, whose content is a \<open>str\<close> or a list of parts.
\<close>

type_synonym part = "(string \<times> string) list"

definition getitem :: "part \<Rightarrow> string \<Rightarrow> exn + string" where
  "getitem d k = (case map_of d k of None \<Rightarrow> Inl (KeyError k) | Some v \<Rightarrow> Inr v)"

datatype content = Str string | Parts "part list"

record item =
  role :: string
  content :: content

datatype json =
    JNull
  | JBool bool
  | JNum int
  | JStr string
  | JList "json list"
  | JDict "(string \<times> json) list"

text \<open>
  The loops of the serializers: \<open>collect f xs\<close> runs \<open>f\<close> over \<open>xs\<close> in order, appends
  what \<open>f\<close> produces (nothing for \<open>None\<close>) and stops at the first exception.
\<close>

fun collect :: "('a \<Rightarrow> exn + 'b option) \<Rightarrow> 'a list \<Rightarrow> exn + 'b list" where
  "collect f [] = Inr []"
| "collect f (x # xs) =
     ebind (f x) (\<lambda>y. ebind (collect f xs) (\<lambda>ys.
       Inr (case y of None \<Rightarrow> ys | Some w \<Rightarrow> w # ys)))"

definition each :: "('a \<Rightarrow> exn + 'b) \<Rightarrow> 'a list \<Rightarrow> exn + 'b list" where
  "each f xs = collect (\<lambda>x. ebind (f x) (\<lambda>y. Inr (Some y))) xs"

subsection \<open>OpenAI and OpenRouter\<close>

definition OPENROUTER_BASE_URL :: string where
  "OPENROUTER_BASE_URL = ''https://openrouter.ai/api/v1''"

definition openai_part :: "part \<Rightarrow> exn + json option" where
  "openai_part part =
     ebind (getitem part ''type'') (\<lambda>t.
       if t = ''text'' then
         ebind (getitem part ''text'') (\<lambda>tx.
           Inr (Some (JDict [(''type'', JStr ''text''), (''text'', JStr tx)])))
       else if t = ''image_b64'' then
         ebind (getitem part ''mime'') (\<lambda>m.
         ebind (getitem part ''data'') (\<lambda>d.
           Inr (Some (JDict [(''type'', JStr ''image_url''),
                             (''image_url'',
                              JDict [(''url'', JStr (''data:'' @ m @ '';base64,'' @ d))])]))))
       else if t = ''pdf_text'' then
         ebind (getitem part ''text'') (\<lambda>tx.
           Inr (Some (JDict [(''type'', JStr ''text''),
                             (''text'', JStr (''[PDF Content]\<newline>'' @ tx))])))
       else Inr None)"

definition openai_item :: "item \<Rightarrow> exn + json" where
  "openai_item it =
     (case content it of
        Str s \<Rightarrow> Inr (JDict [(''role'', JStr (role it)), (''content'', JStr s)])
      | Parts ps \<Rightarrow>
          ebind (collect openai_part ps) (\<lambda>parts.
            Inr (JDict [(''role'', JStr (role it)), (''content'', JList parts)])))"

definition build_openai_messages :: "item list \<Rightarrow> exn + json list" where
  "build_openai_messages history = each openai_item history"

text \<open>
  What \<open>client.chat.completions.create\<close> is called with: the client's base URL (None is
  the library's default endpoint) and key, the model and the messages.
\<close>

record chat_request =
  req_base_url :: "string option"
  req_api_key :: string
  req_model :: string
  req_messages :: "json list"

text \<open>
  The external collaborators.  A chat completion is seen as the list of
  \<open>choices[i].message.content\<close> (None where the provider sent no content);
  \<open>httpx_post_json url payload\<close> is \<open>httpx.post\<close>, \<open>raise_for_status\<close> and \<open>resp.json()\<close>;
  an Anthropic message is seen as its list of content blocks.  \<open>re_sub\<close> is Python's
  \<open>re.sub(pattern, repl, text, flags)\<close>.
\<close>

datatype block = TextBlock string | OtherBlock

datatype re_flag = MULTILINE | DOTALL

record ext =
  chat_completions_create :: "chat_request \<Rightarrow> exn + string option list"
  httpx_post_json :: "string \<Rightarrow> json \<Rightarrow> exn + json"
  messages_create :: "string \<Rightarrow> string \<Rightarrow> int \<Rightarrow> json list \<Rightarrow> exn + block list"
  re_sub :: "string \<Rightarrow> string \<Rightarrow> re_flag list \<Rightarrow> string \<Rightarrow> string"

definition openai_reply :: "string option list \<Rightarrow> exn + string" where
  "openai_reply choices =
     (case choices of
        [] \<Rightarrow> Inl IndexError
      | None # _ \<Rightarrow> Inl (AttributeError ''strip'')
      | Some c # _ \<Rightarrow> Inr (strip c))"

definition openai_request :: "config \<Rightarrow> item list \<Rightarrow> exn + chat_request" where
  "openai_request cfg history =
     ebind (build_openai_messages history) (\<lambda>msgs.
       Inr \<lparr>req_base_url = None, req_api_key = AI_API_KEY cfg,
            req_model = get_model cfg, req_messages = msgs\<rparr>)"

definition ask_openai :: "ext \<Rightarrow> config \<Rightarrow> item list \<Rightarrow> exn + string" where
  "ask_openai ex cfg history =
     ebind (openai_request cfg history) (\<lambda>req.
     ebind (chat_completions_create ex req) openai_reply)"

definition openrouter_request :: "config \<Rightarrow> item list \<Rightarrow> exn + chat_request" where
  "openrouter_request cfg history =
     ebind (build_openai_messages history) (\<lambda>msgs.
       Inr \<lparr>req_base_url = Some OPENROUTER_BASE_URL, req_api_key = AI_API_KEY cfg,
            req_model = get_model cfg, req_messages = msgs\<rparr>)"

definition ask_openrouter :: "ext \<Rightarrow> config \<Rightarrow> item list \<Rightarrow> exn + string" where
  "ask_openrouter ex cfg history =
     ebind (openrouter_request cfg history) (\<lambda>req.
     ebind (chat_completions_create ex req) openai_reply)"

subsection \<open>Google Gemini\<close>

definition gemini_part :: "part \<Rightarrow> exn + json option" where
  "gemini_part part =
     ebind (getitem part ''type'') (\<lambda>t.
       if t = ''text'' then
         ebind (getitem part ''text'') (\<lambda>tx. Inr (Some (JDict [(''text'', JStr tx)])))
       else if t = ''image_b64'' then
         ebind (getitem part ''mime'') (\<lambda>m.
         ebind (getitem part ''data'') (\<lambda>d.
           Inr (Some (JDict [(''inlineData'',
                              JDict [(''mimeType'', JStr m), (''data'', JStr d)])]))))
       else if t = ''pdf_text'' then
         ebind (getitem part ''text'') (\<lambda>tx.
           Inr (Some (JDict [(''text'', JStr (''[PDF Content]\<newline>'' @ tx))])))
       else Inr None)"

definition gemini_item :: "item \<Rightarrow> exn + json" where
  "gemini_item it =
     (let r = (if role it = ''user'' then ''user'' else ''model'')
      in ebind (case content it of
                  Str s \<Rightarrow> Inr [JDict [(''text'', JStr s)]]
                | Parts ps \<Rightarrow> collect gemini_part ps) (\<lambda>parts.
           Inr (JDict [(''role'', JStr r), (''parts'', JList parts)])))"

definition build_gemini_contents :: "item list \<Rightarrow> exn + json list" where
  "build_gemini_contents history = each gemini_item history"

text \<open>Subscripts on a parsed JSON body: \<open>j[k]\<close> and \<open>j[0]\<close>.\<close>

definition jkey :: "string \<Rightarrow> json \<Rightarrow> exn + json" where
  "jkey k j =
     (case j of
        JDict kvs \<Rightarrow> (case map_of kvs k of None \<Rightarrow> Inl (KeyError k) | Some v \<Rightarrow> Inr v)
      | _ \<Rightarrow> Inl TypeError)"

definition jfirst :: "json \<Rightarrow> exn + json" where
  "jfirst j =
     (case j of
        JList [] \<Rightarrow> Inl IndexError
      | JList (x # _) \<Rightarrow> Inr x
      | JStr [] \<Rightarrow> Inl IndexError
      | JStr (c # _) \<Rightarrow> Inr (JStr [c])
      | JDict _ \<Rightarrow> Inl (KeyError ''0'')
      | _ \<Rightarrow> Inl TypeError)"

definition jstrip :: "json \<Rightarrow> exn + string" where
  "jstrip j = (case j of JStr s \<Rightarrow> Inr (strip s) | _ \<Rightarrow> Inl (AttributeError ''strip''))"

definition gemini_reply :: "json \<Rightarrow> exn + string" where
  "gemini_reply data =
     ebind (jkey ''candidates'' data) (\<lambda>cs.
     ebind (jfirst cs) (\<lambda>c.
     ebind (jkey ''content'' c) (\<lambda>ct.
     ebind (jkey ''parts'' ct) (\<lambda>ps.
     ebind (jfirst ps) (\<lambda>p.
     ebind (jkey ''text'' p) jstrip)))))"

definition gemini_url :: "config \<Rightarrow> string" where
  "gemini_url cfg =
     ''https://generativelanguage.googleapis.com/v1beta/models/'' @ get_model cfg
       @ '':generateContent?key='' @ AI_API_KEY cfg"

definition ask_gemini :: "ext \<Rightarrow> config \<Rightarrow> item list \<Rightarrow> exn + string" where
  "ask_gemini ex cfg history =
     ebind (build_gemini_contents history) (\<lambda>contents.
     ebind (httpx_post_json ex (gemini_url cfg) (JDict [(''contents'', JList contents)]))
       gemini_reply)"

subsection \<open>Anthropic\<close>

definition anthropic_part :: "part \<Rightarrow> exn + json option" where
  "anthropic_part part =
     ebind (getitem part ''type'') (\<lambda>t.
       if t = ''text'' then
         ebind (getitem part ''text'') (\<lambda>tx.
           Inr (Some (JDict [(''type'', JStr ''text''), (''text'', JStr tx)])))
       else if t = ''image_b64'' then
         ebind (getitem part ''mime'') (\<lambda>m.
         ebind (getitem part ''data'') (\<lambda>d.
           Inr (Some (JDict [(''type'', JStr ''image''),
                             (''source'',
                              JDict [(''type'', JStr ''base64''),
                                     (''media_type'', JStr m),
                                     (''data'', JStr d)])]))))
       else if t = ''pdf_text'' then
         ebind (getitem part ''text'') (\<lambda>tx.
           Inr (Some (JDict [(''type'', JStr ''text''),
                             (''text'', JStr (''[PDF Content]\<newline>'' @ tx))])))
       else Inr None)"

definition anthropic_item :: "item \<Rightarrow> exn + json" where
  "anthropic_item it =
     (case content it of
        Str s \<Rightarrow> Inr (JDict [(''role'', JStr (role it)), (''content'', JStr s)])
      | Parts ps \<Rightarrow>
          ebind (collect anthropic_part ps) (\<lambda>parts.
            Inr (JDict [(''role'', JStr (role it)), (''content'', JList parts)])))"

definition build_anthropic_messages :: "item list \<Rightarrow> exn + json list" where
  "build_anthropic_messages history = each anthropic_item history"

definition anthropic_reply :: "block list \<Rightarrow> exn + string" where
  "anthropic_reply blocks =
     (case blocks of
        [] \<Rightarrow> Inl IndexError
      | TextBlock t # _ \<Rightarrow> Inr (strip t)
      | OtherBlock # _ \<Rightarrow> Inl (AttributeError ''text''))"

definition ask_anthropic :: "ext \<Rightarrow> config \<Rightarrow> item list \<Rightarrow> exn + string" where
  "ask_anthropic ex cfg history =
     ebind (build_anthropic_messages history) (\<lambda>msgs.
     ebind (messages_create ex (AI_API_KEY cfg) (get_model cfg) 4096 msgs) anthropic_reply)"

subsection \<open>Public interface\<close>

definition unknown_provider :: "string \<Rightarrow> exn" where
  "unknown_provider p =
     ValueError (''Unknown AI_PROVIDER: '' @ [CHR 0x27] @ p @ [CHR 0x27]
                 @ ''. Use: openrouter | openai | gemini | anthropic'')"

definition ask_ai :: "ext \<Rightarrow> config \<Rightarrow> item list \<Rightarrow> exn + string" where
  "ask_ai ex cfg history =
     (if AI_PROVIDER cfg = ''openrouter'' then ask_openrouter ex cfg history
      else if AI_PROVIDER cfg = ''openai'' then ask_openai ex cfg history
      else if AI_PROVIDER cfg = ''gemini'' then ask_gemini ex cfg history
      else if AI_PROVIDER cfg = ''anthropic'' then ask_anthropic ex cfg history
      else Inl (unknown_provider (AI_PROVIDER cfg)))"

text \<open>\<open>base64.b64encode(data).decode()\<close>, on bytes given as 8-bit characters.\<close>

definition b64chr :: "nat \<Rightarrow> char" where
  "b64chr n =
     ''ABCDEFGHIJKLMNOPQRSTUVWXYZabcdefghijklmnopqrstuvwxyz0123456789+/'' ! n"

fun b64encode :: "char list \<Rightarrow> string" where
  "b64encode [] = []"
| "b64encode [a] =
     (let x = (of_char a :: nat)
      in [b64chr (x div 4), b64chr ((x mod 4) * 16), CHR ''='', CHR ''=''])"
| "b64encode [a, b] =
     (let x = (of_char a :: nat); y = (of_char b :: nat)
      in [b64chr (x div 4), b64chr ((x mod 4) * 16 + y div 16),
          b64chr ((y mod 16) * 4), CHR ''=''])"
| "b64encode (a # b # c # rest) =
     (let x = (of_char a :: nat); y = (of_char b :: nat); z = (of_char c :: nat)
      in [b64chr (x div 4), b64chr ((x mod 4) * 16 + y div 16),
          b64chr ((y mod 16) * 4 + z div 64), b64chr (z mod 64)] @ b64encode rest)"

definition encode_image_bytes :: "char list \<Rightarrow> string \<Rightarrow> part" where
  "encode_image_bytes data mime =
     [(''type'', ''image_b64''), (''data'', b64encode data), (''mime'', mime)]"

definition make_text_part :: "string \<Rightarrow> part" where
  "make_text_part text = [(''type'', ''text''), (''text'', text)]"

definition make_pdf_part :: "string \<Rightarrow> part" where
  "make_pdf_part text = [(''type'', ''pdf_text''), (''text'', text)]"

section \<open>bot.py\<close>

subsection \<open>State\<close>

text \<open>
  What the handlers do to the outside world is recorded in order in \<open>trace\<close>: the chat
  action, the replies sent (the reply built from a caught exception is kept as
  \<open>ReplyAIError exc\<close>), each call of \<open>ask_ai\<close> with the history it was given, and an
  exception that leaves a handler uncaught.
\<close>

datatype effect =
    SendAction string
  | ReplyText string
  | ReplyAIError exn
  | AskAI "item list"
  | Uncaught exn

text \<open>
  An entry of \<open>_media_groups\<close>.  \<open>g_task\<close> is the handle of the pending \<open>call_later\<close>
  timer; the stored update and context only say where the reply goes.
\<close>

record group =
  g_parts :: "part list"
  g_caption :: string
  g_uid :: int
  g_task :: "nat option"

text \<open>
  \<open>user_history\<close> is a \<open>defaultdict(list)\<close>: every user has a history, empty at first.
  \<open>timers\<close> holds the scheduled, not yet cancelled or fired, \<open>call_later\<close> handles with
  the media group each one flushes; \<open>next_timer\<close> numbers the handles.
\<close>

record bot_state =
  user_history :: "int \<Rightarrow> item list"
  media_groups :: "string \<Rightarrow> group option"
  timers :: "(nat \<times> string) list"
  next_timer :: nat
  trace :: "effect list"

definition initial_state :: bot_state where
  "initial_state =
     \<lparr>user_history = (\<lambda>uid. []), media_groups = (\<lambda>mgid. None), timers = [],
      next_timer = 0, trace = []\<rparr>"

definition emit :: "effect \<Rightarrow> bot_state \<Rightarrow> bot_state" where
  "emit e st = st\<lparr>trace := trace st @ [e]\<rparr>"

definition append_history :: "int \<Rightarrow> item \<Rightarrow> bot_state \<Rightarrow> bot_state" where
  "append_history uid it st =
     st\<lparr>user_history := (user_history st)(uid := user_history st uid @ [it])\<rparr>"

subsection \<open>Helpers\<close>

definition strip_markdown :: "ext \<Rightarrow> string \<Rightarrow> string" where
  "strip_markdown ex text =
     (let bs = [CHR 0x5C];
          t1 = re_sub ex (''^#{1,6}'' @ bs @ ''s*'') [] [MULTILINE] text;
          t2 = re_sub ex (bs @ ''*{1,3}(.+?)'' @ bs @ ''*{1,3}'') (bs @ ''1'') [] t1;
          t3 = re_sub ex (''_{1,3}(.+?)_{1,3}'') (bs @ ''1'') [] t2;
          t4 = re_sub ex ([CHR 0x60] @ ''{1,3}(.+?)'' @ [CHR 0x60] @ ''{1,3}'') (bs @ ''1'')
                 [DOTALL] t3;
          t5 = re_sub ex (''^[-*_]{3,}'' @ bs @ ''s*$'') [] [MULTILINE] t4;
          t6 = re_sub ex (''^>+'' @ bs @ ''s?'') [] [MULTILINE] t5;
          t7 = re_sub ex (bs @ ''[(.+?)'' @ bs @ '']'' @ bs @ ''(.*?'' @ bs @ '')'')
                 (bs @ ''1'') [] t6;
          t8 = re_sub ex (''!'' @ bs @ ''[.*?'' @ bs @ '']'' @ bs @ ''(.*?'' @ bs @ '')'')
                 [] [] t7;
          t9 = re_sub ex (bs @ ''n{3,}'') ''\<newline>\<newline>'' [] t8
      in strip t9)"

definition trim_history :: "config \<Rightarrow> int \<Rightarrow> bot_state \<Rightarrow> bot_state" where
  "trim_history cfg uid st =
     (let hist = user_history st uid;
          max_items = MAX_HISTORY cfg * 2
      in if max_items < int (length hist)
         then st\<lparr>user_history := (user_history st)(uid := slice_from (- max_items) hist)\<rparr>
         else st)"

definition split :: "'a list \<Rightarrow> int \<Rightarrow> exn + 'a list list" where
  "split text sz =
     ebind (py_range 0 (max (int (length text)) 1) sz) (\<lambda>starts.
       Inr (map (\<lambda>i. slice i (i + sz) text) starts))"

definition send_ai_reply :: "ext \<Rightarrow> config \<Rightarrow> int \<Rightarrow> content \<Rightarrow> bot_state \<Rightarrow> bot_state" where
  "send_ai_reply ex cfg uid user_parts st =
     (let st1 = append_history uid \<lparr>role = ''user'', content = user_parts\<rparr> st;
          st2 = trim_history cfg uid st1;
          st3 = emit (SendAction ''typing'') st2;
          st4 = emit (AskAI (user_history st3 uid)) st3
      in case ask_ai ex cfg (user_history st3 uid) of
           Inl exc \<Rightarrow>
             (case pop (user_history st4 uid) of
                Inl err \<Rightarrow> emit (Uncaught err) st4
              | Inr rest \<Rightarrow>
                  emit (ReplyAIError exc)
                    (st4\<lparr>user_history := (user_history st4)(uid := rest)\<rparr>))
         | Inr reply \<Rightarrow>
             (let st5 = append_history uid \<lparr>role = ''assistant'', content = Str reply\<rparr> st4;
                  st6 = trim_history cfg uid st5;
                  clean_reply = strip_markdown ex reply
              in case split clean_reply 4096 of
                   Inl err \<Rightarrow> emit (Uncaught err) st6
                 | Inr chunks \<Rightarrow> fold (\<lambda>chunk. emit (ReplyText chunk)) chunks st6))"

subsection \<open>Message handlers\<close>

definition handle_text :: "ext \<Rightarrow> config \<Rightarrow> int \<Rightarrow> string \<Rightarrow> bot_state \<Rightarrow> bot_state" where
  "handle_text ex cfg uid message_text st =
     (let text = strip message_text
      in if text = [] then st else send_ai_reply ex cfg uid (Str text) st)"








subsection \<open>Start-up\<close>

text \<open>The checks of \<open>main\<close> before the application is built; \<open>Inr ()\<close> is: polling starts.\<close>

definition main :: "config \<Rightarrow> exn + unit" where
  "main cfg =
     (if TELEGRAM_BOT_TOKEN cfg = [] then
        Inl (RuntimeError ''TELEGRAM_BOT_TOKEN is not set in .env'')
      else if AI_API_KEY cfg = [] then
        Inl (RuntimeError ''AI_API_KEY is not set in .env'')
      else Inr ())"

section \<open>Test doubles\<close>

text \<open>
  A provider that answers every request with a response whose reply field holds \<open>t\<close>, and
  a provider whose every call raises \<open>e\<close>.  Their \<open>re_sub\<close> leaves the text as it is.
\<close>

definition synthetic_ext :: "string \<Rightarrow> ext" where
  "synthetic_ext t =
     \<lparr>chat_completions_create = (\<lambda>req. Inr [Some t]),
      httpx_post_json = (\<lambda>u body. Inr (JDict [(''candidates'',
         JList [JDict [(''content'',
           JDict [(''parts'', JList [JDict [(''text'', JStr t)]])])]])])),
      messages_create = (\<lambda>key m n msgs. Inr [TextBlock t]),
      re_sub = (\<lambda>pat repl flags s. s)\<rparr>"

definition failing_ext :: "exn \<Rightarrow> ext" where
  "failing_ext e =
     \<lparr>chat_completions_create = (\<lambda>req. Inl e),
      httpx_post_json = (\<lambda>u body. Inl e),
      messages_create = (\<lambda>key m n msgs. Inl e),
      re_sub = (\<lambda>pat repl flags s. s)\<rparr>"

definition example_config :: "string \<Rightarrow> int \<Rightarrow> config" where
  "example_config provider max_history =
     \<lparr>TELEGRAM_BOT_TOKEN = ''token'', AI_PROVIDER = provider, AI_API_KEY = ''key'',
      AI_MODEL = [], MAX_HISTORY = max_history\<rparr>"

definition user_turn :: "string \<Rightarrow> item" where
  "user_turn s = \<lparr>role = ''user'', content = Str s\<rparr>"

definition assistant_turn :: "string \<Rightarrow> item" where
  "assistant_turn s = \<lparr>role = ''assistant'', content = Str s\<rparr>"

definition with_history :: "int \<Rightarrow> item list \<Rightarrow> bot_state" where
  "with_history uid h = initial_state\<lparr>user_history := (\<lambda>u. [])(uid := h)\<rparr>"

section \<open>The translation table of the specification\<close>

text \<open>
  The internal model of the specification: a turn has a role and a content, which is a
  plain string or a sequence of Text, Image (mime type and base-64 payload) and PdfText
  parts.  \<open>internal_item\<close> is the dict the source keeps for a turn.  The \<open>table_\<close>
  functions follow the words of the specification's table, one wire value for each turn,
  for each of the three wire formats; they are what the serializers of the source are
  compared with.
\<close>

datatype Role = User | Assistant
datatype Part = Text string | Image string string | PdfText string
datatype TurnContent = PlainText string | PartSeq "Part list"
datatype Turn = Turn Role TurnContent

fun internal_role :: "Role \<Rightarrow> string" where
  "internal_role User = ''user''"
| "internal_role Assistant = ''assistant''"

fun internal_part :: "Part \<Rightarrow> part" where
  "internal_part (Text t) = make_text_part t"
| "internal_part (Image mime data) = [(''type'', ''image_b64''), (''data'', data), (''mime'', mime)]"
| "internal_part (PdfText t) = make_pdf_part t"

fun internal_item :: "Turn \<Rightarrow> item" where
  "internal_item (Turn r (PlainText s)) = \<lparr>role = internal_role r, content = Str s\<rparr>"
| "internal_item (Turn r (PartSeq ps)) = \<lparr>role = internal_role r, content = Parts (map internal_part ps)\<rparr>"

fun table_openai_role :: "Role \<Rightarrow> string" where
  "table_openai_role User = ''user''"
| "table_openai_role Assistant = ''assistant''"

fun table_gemini_role :: "Role \<Rightarrow> string" where
  "table_gemini_role User = ''user''"
| "table_gemini_role Assistant = ''model''"

fun table_anthropic_role :: "Role \<Rightarrow> string" where
  "table_anthropic_role User = ''user''"
| "table_anthropic_role Assistant = ''assistant''"

fun table_openai_part :: "Part \<Rightarrow> json" where
  "table_openai_part (Text t) = JDict [(''type'', JStr ''text''), (''text'', JStr t)]"
| "table_openai_part (Image mime data) =
     JDict [(''type'', JStr ''image_url''),
            (''image_url'', JDict [(''url'', JStr (''data:'' @ mime @ '';base64,'' @ data))])]"
| "table_openai_part (PdfText t) =
     JDict [(''type'', JStr ''text''), (''text'', JStr (''[PDF Content]\<newline>'' @ t))]"

fun table_gemini_part :: "Part \<Rightarrow> json" where
  "table_gemini_part (Text t) = JDict [(''text'', JStr t)]"
| "table_gemini_part (Image mime data) =
     JDict [(''inlineData'', JDict [(''mimeType'', JStr mime), (''data'', JStr data)])]"
| "table_gemini_part (PdfText t) = JDict [(''text'', JStr (''[PDF Content]\<newline>'' @ t))]"

fun table_anthropic_part :: "Part \<Rightarrow> json" where
  "table_anthropic_part (Text t) = JDict [(''type'', JStr ''text''), (''text'', JStr t)]"
| "table_anthropic_part (Image mime data) =
     JDict [(''type'', JStr ''image''),
            (''source'', JDict [(''type'', JStr ''base64''), (''media_type'', JStr mime),
                                (''data'', JStr data)])]"
| "table_anthropic_part (PdfText t) =
     JDict [(''type'', JStr ''text''), (''text'', JStr (''[PDF Content]\<newline>'' @ t))]"

fun table_openai :: "Turn \<Rightarrow> json" where
  "table_openai (Turn r (PlainText s)) =
     JDict [(''role'', JStr (table_openai_role r)), (''content'', JStr s)]"
| "table_openai (Turn r (PartSeq ps)) =
     JDict [(''role'', JStr (table_openai_role r)), (''content'', JList (map table_openai_part ps))]"

fun table_gemini :: "Turn \<Rightarrow> json" where
  "table_gemini (Turn r (PlainText s)) =
     JDict [(''role'', JStr (table_gemini_role r)), (''parts'', JList [JDict [(''text'', JStr s)]])]"
| "table_gemini (Turn r (PartSeq ps)) =
     JDict [(''role'', JStr (table_gemini_role r)), (''parts'', JList (map table_gemini_part ps))]"

fun table_anthropic :: "Turn \<Rightarrow> json" where
  "table_anthropic (Turn r (PlainText s)) =
     JDict [(''role'', JStr (table_anthropic_role r)), (''content'', JStr s)]"
| "table_anthropic (Turn r (PartSeq ps)) =
     JDict [(''role'', JStr (table_anthropic_role r)),
            (''content'', JList (map table_anthropic_part ps))]"

section \<open>Known and unknown parts\<close>

text \<open>
  A part has an unknown tag when it has a \<open>type\<close> that is none of the three the
  serializers test for.  \<open>drop_unknown\<close> removes these parts from a turn.  \<open>ctor\<close> names
  the three functions of the source that build a part, with their arguments.
\<close>

definition unknown_tag :: "part \<Rightarrow> bool" where
  "unknown_tag p =
     (case map_of p ''type'' of
        None \<Rightarrow> False
      | Some t \<Rightarrow> t \<notin> set [''text'', ''image_b64'', ''pdf_text''])"

definition drop_unknown :: "item \<Rightarrow> item" where
  "drop_unknown it =
     (case content it of
        Str s \<Rightarrow> it
      | Parts ps \<Rightarrow> it\<lparr>content := Parts (filter (\<lambda>p. \<not> unknown_tag p) ps)\<rparr>)"

datatype ctor = MakeText string | EncodeImage "char list" string | MakePdf string

fun construct :: "ctor \<Rightarrow> part" where
  "construct (MakeText t) = make_text_part t"
| "construct (EncodeImage data mime) = encode_image_bytes data mime"
| "construct (MakePdf t) = make_pdf_part t"

text \<open>
  The three serializers, indexed by the wire format: \<open>serialize a\<close> is the function of the
  source that builds the request body, \<open>serialize_item a\<close> its loop body for one turn,
  \<open>serialize_part a\<close> its branch for one part, and \<open>wire_turn a r ws\<close> the wire value it
  builds for a turn of role \<open>r\<close> from the wire parts \<open>ws\<close>.  A part is known when it has
  one of the three tags together with the fields the serializers read for that tag.
  \<open>ctor_part\<close> is the part of the specification that a constructor call builds, and
  \<open>table_part a\<close> the wire part the table gives for it.
\<close>

datatype adapter = OpenAI | Gemini | Anthropic

fun serialize_part :: "adapter \<Rightarrow> part \<Rightarrow> exn + json option" where
  "serialize_part OpenAI p = openai_part p"
| "serialize_part Gemini p = gemini_part p"
| "serialize_part Anthropic p = anthropic_part p"

fun serialize_item :: "adapter \<Rightarrow> item \<Rightarrow> exn + json" where
  "serialize_item OpenAI it = openai_item it"
| "serialize_item Gemini it = gemini_item it"
| "serialize_item Anthropic it = anthropic_item it"

fun serialize :: "adapter \<Rightarrow> item list \<Rightarrow> exn + json list" where
  "serialize OpenAI history = build_openai_messages history"
| "serialize Gemini history = build_gemini_contents history"
| "serialize Anthropic history = build_anthropic_messages history"

fun wire_turn :: "adapter \<Rightarrow> string \<Rightarrow> json list \<Rightarrow> json" where
  "wire_turn OpenAI r ws = JDict [(''role'', JStr r), (''content'', JList ws)]"
| "wire_turn Gemini r ws =
     JDict [(''role'', JStr (if r = ''user'' then ''user'' else ''model'')), (''parts'', JList ws)]"
| "wire_turn Anthropic r ws = JDict [(''role'', JStr r), (''content'', JList ws)]"

definition known_part :: "part \<Rightarrow> bool" where
  "known_part p =
     (case map_of p ''type'' of
        None \<Rightarrow> False
      | Some t \<Rightarrow>
          if t = ''text'' \<or> t = ''pdf_text'' then map_of p ''text'' \<noteq> None
          else if t = ''image_b64'' then map_of p ''mime'' \<noteq> None \<and> map_of p ''data'' \<noteq> None
          else False)"

fun ctor_part :: "ctor \<Rightarrow> Part" where
  "ctor_part (MakeText t) = Text t"
| "ctor_part (EncodeImage data mime) = Image mime (b64encode data)"
| "ctor_part (MakePdf t) = PdfText t"

fun table_part :: "adapter \<Rightarrow> Part \<Rightarrow> json" where
  "table_part OpenAI p = table_openai_part p"
| "table_part Gemini p = table_gemini_part p"
| "table_part Anthropic p = table_anthropic_part p"

section \<open>Plain-text histories\<close>

text \<open>A history is plain-text-only when the content of every turn is a string.\<close>

definition plain_text_only :: "item list \<Rightarrow> bool" where
  "plain_text_only h = list_all (\<lambda>it. case content it of Str s \<Rightarrow> True | Parts ps \<Rightarrow> False) h"

section \<open>Runs of the bot\<close>







section \<open>Properties\<close>

subsection \<open>Blank text messages\<close>

lemma strip_all_space: "list_all isspace s \<Longrightarrow> strip s = []"
proof -
  assume "list_all isspace s"
  then have d: "dropWhile isspace s = []"
    by (simp add: dropWhile_eq_Nil_conv list_all_iff)
  show ?thesis unfolding strip_def d by simp
qed

text \<open>
  Claim C9 (blank text messages).  When the text of a message consists of white space
  only (the empty text included), \<open>handle_text\<close> returns the state it was given: the
  history and the buffered groups are unchanged and the trace gained neither a provider
  call nor a reply.
\<close>

theorem handle_text_blank_is_noop:
  "list_all isspace message_text \<Longrightarrow> handle_text ex cfg uid message_text st = st"
  by (simp add: handle_text_def strip_all_space)

text \<open>
  The theorem at a message of a space, a line feed and a space.
\<close>

theorem handle_text_blank_is_noop_witness:
  "list_all isspace '' \<newline> '' \<and>
   handle_text (synthetic_ext ''ok'') (example_config ''openai'' 20) 7 '' \<newline> '' initial_state
     = initial_state"
  using handle_text_blank_is_noop [of "'' \<newline> ''" "synthetic_ext ''ok''"
      "example_config ''openai'' 20" 7 initial_state]
  by (simp add: isspace_def)

subsection \<open>OpenRouter and OpenAI\<close>

text \<open>
  Claim C8 (OpenRouter and OpenAI serialize alike).  For every history and configuration,
  the request the OpenRouter adapter builds is the request the OpenAI adapter builds with
  the base URL replaced by the OpenRouter endpoint: the messages of both are
  \<open>_build_openai_messages history\<close>, the model is the same, and when the serializer raises,
  both raise the same exception.
\<close>

theorem openrouter_reuses_openai_serialization:
  "openrouter_request cfg history =
     map_sum id (\<lambda>r. r\<lparr>req_base_url := Some OPENROUTER_BASE_URL\<rparr>) (openai_request cfg history)
   \<and> map_sum id req_messages (openrouter_request cfg history) = build_openai_messages history
   \<and> map_sum id req_messages (openai_request cfg history) = build_openai_messages history
   \<and> map_sum id req_model (openrouter_request cfg history)
       = map_sum id req_model (openai_request cfg history)"
  by (cases "build_openai_messages history")
     (simp_all add: openrouter_request_def openai_request_def ebind_def)

subsection \<open>Trimming the history\<close>

lemma trim_history_hist:
  "user_history (trim_history cfg uid st) uid =
     (if MAX_HISTORY cfg * 2 < int (length (user_history st uid))
      then slice_from (- (MAX_HISTORY cfg * 2)) (user_history st uid)
      else user_history st uid)"
  by (simp add: trim_history_def Let_def)

lemma slice_from_neg:
  "0 < m \<Longrightarrow> slice_from (- m) xs = drop (length xs - nat m) xs"
  by (auto simp: slice_from_def norm_index_def max_def nat_diff_distrib' intro: arg_cong2[where f=drop])

text \<open>
  Claim C2 (trim invariant), as the code has it.  For a positive \<open>MAX_HISTORY\<close>, after
  \<open>_trim_history\<close> the history is the original without its first
  \<open>N - 2 * MAX_HISTORY\<close> entries (none when \<open>N\<close> is within the limit): a suffix of the
  original in the original order, of length \<open>min N (2 * MAX_HISTORY)\<close>.  The number of
  entries removed is whatever exceeds the limit, odd or even.
\<close>

theorem trim_history_keeps_last_entries:
  assumes "0 < MAX_HISTORY cfg"
  shows "user_history (trim_history cfg uid st) uid
           = drop (length (user_history st uid) - nat (2 * MAX_HISTORY cfg)) (user_history st uid)
         \<and> length (user_history (trim_history cfg uid st) uid)
           = min (length (user_history st uid)) (nat (2 * MAX_HISTORY cfg))"
proof -
  let ?h = "user_history st uid"
  have pos: "0 < MAX_HISTORY cfg * 2" using assms by simp
  have eq: "user_history (trim_history cfg uid st) uid = drop (length ?h - nat (2 * MAX_HISTORY cfg)) ?h"
  proof (cases "MAX_HISTORY cfg * 2 < int (length ?h)")
    case True
    then show ?thesis
      using slice_from_neg [OF pos, of ?h] by (simp add: trim_history_hist mult.commute)
  next
    case False
    then have "length ?h - nat (2 * MAX_HISTORY cfg) = 0" by simp
    with False show ?thesis by (simp add: trim_history_hist)
  qed
  show ?thesis unfolding eq by (simp add: min_def)
qed

text \<open>
  The theorem at \<open>MAX_HISTORY = 1\<close> and the history \<open>[q1, r1, q2]\<close>: the last two entries
  are kept.
\<close>

theorem trim_history_keeps_last_entries_witness:
  "0 < MAX_HISTORY (example_config ''openai'' 1) \<and>
   user_history (trim_history (example_config ''openai'' 1) 7
       (with_history 7 [user_turn ''q1'', assistant_turn ''r1'', user_turn ''q2''])) 7
     = [assistant_turn ''r1'', user_turn ''q2'']"
  using trim_history_keeps_last_entries [of "example_config ''openai'' 1" 7
      "with_history 7 [user_turn ''q1'', assistant_turn ''r1'', user_turn ''q2'']"]
  by (simp add: example_config_def with_history_def initial_state_def)

text \<open>
  Entries are not removed in pairs: with \<open>MAX_HISTORY = 1\<close> the history \<open>[q1, r1, q2]\<close>
  loses one entry, and the result starts on the assistant turn \<open>r1\<close> whose user turn is
  gone.
\<close>

theorem trim_history_removes_single_entry:
  "\<not> even (length [user_turn ''q1'', assistant_turn ''r1'', user_turn ''q2'']
      - length (user_history (trim_history (example_config ''openai'' 1) 7
          (with_history 7 [user_turn ''q1'', assistant_turn ''r1'', user_turn ''q2''])) 7))
   \<and> role (hd (user_history (trim_history (example_config ''openai'' 1) 7
          (with_history 7 [user_turn ''q1'', assistant_turn ''r1'', user_turn ''q2''])) 7))
       = ''assistant''"
  by (simp add: trim_history_def example_config_def with_history_def initial_state_def
      slice_from_def norm_index_def user_turn_def assistant_turn_def)

subsection \<open>Unknown provider\<close>

text \<open>
  Claim C3 (unrecognized provider selector), as the code has it.  With a token and a key set,
  a selector other than the four identifiers passes the checks of \<open>main\<close>, so the process
  starts; the selector is rejected by \<open>ask_ai\<close>, which raises \<open>ValueError\<close> on each call.
\<close>

theorem unknown_provider_is_per_call_error:
  assumes "AI_PROVIDER cfg \<notin> set [''openrouter'', ''openai'', ''gemini'', ''anthropic'']"
    and "TELEGRAM_BOT_TOKEN cfg \<noteq> []" and "AI_API_KEY cfg \<noteq> []"
  shows "main cfg = Inr () \<and> ask_ai ex cfg history = Inl (unknown_provider (AI_PROVIDER cfg))"
  using assms by (simp add: main_def ask_ai_def)

text \<open>
  The theorem at the selector \<open>llama\<close>.
\<close>

theorem unknown_provider_is_per_call_error_witness:
  "AI_PROVIDER (example_config ''llama'' 20) \<notin> set [''openrouter'', ''openai'', ''gemini'', ''anthropic'']
   \<and> TELEGRAM_BOT_TOKEN (example_config ''llama'' 20) \<noteq> []
   \<and> AI_API_KEY (example_config ''llama'' 20) \<noteq> []
   \<and> main (example_config ''llama'' 20) = Inr ()
   \<and> ask_ai (synthetic_ext ''ok'') (example_config ''llama'' 20) [user_turn ''hi'']
       = Inl (unknown_provider ''llama'')"
  using unknown_provider_is_per_call_error [of "example_config ''llama'' 20" "synthetic_ext ''ok''"
      "[user_turn ''hi'']"]
  by (simp add: example_config_def)

text \<open>
  The selector \<open>llama\<close> is not a fatal error at start-up and does surface as an error of
  the call: \<open>main\<close> lets polling start, \<open>ask_ai\<close> raises.
\<close>

theorem unknown_provider_passes_startup:
  "main (example_config ''llama'' 20) = Inr ()
   \<and> ask_ai (synthetic_ext ''ok'') (example_config ''llama'' 20) [user_turn ''hi'']
       = Inl (unknown_provider ''llama'')"
  by (simp add: main_def ask_ai_def example_config_def)

subsection \<open>Failure rollback\<close>

lemma trim_history_noop:
  "int (length (user_history st uid)) \<le> MAX_HISTORY cfg * 2 \<Longrightarrow> trim_history cfg uid st = st"
  by (simp add: trim_history_def Let_def)

lemma trim_history_zero: "MAX_HISTORY cfg = 0 \<Longrightarrow> trim_history cfg uid st = st"
  by (simp add: trim_history_def Let_def slice_from_def norm_index_def)

lemma drop_eq_self_iff: "(drop n xs = xs) = (n = 0 \<or> xs = [])"
proof
  assume "drop n xs = xs"
  then have "length (drop n xs) = length xs" by simp
  then have "length xs - n = length xs" by simp
  then have "n = 0 \<or> length xs = 0" by arith
  then show "n = 0 \<or> xs = []" by simp
next
  assume "n = 0 \<or> xs = []"
  then show "drop n xs = xs" by auto
qed

lemma failed_call_history:
  assumes "ask_ai ex cfg (user_history (trim_history cfg uid
             (append_history uid \<lparr>role = ''user'', content = user_parts\<rparr> st)) uid) = Inl exc"
  shows "user_history (send_ai_reply ex cfg uid user_parts st) uid =
           butlast (user_history (trim_history cfg uid
             (append_history uid \<lparr>role = ''user'', content = user_parts\<rparr> st)) uid)"
  unfolding send_ai_reply_def Let_def using assms by (simp add: emit_def pop_def)

lemma trimmed_append:
  "user_history (trim_history cfg uid (append_history uid u st)) uid =
     (if MAX_HISTORY cfg * 2 < int (length (user_history st uid)) + 1
      then slice_from (- (MAX_HISTORY cfg * 2)) (user_history st uid @ [u])
      else user_history st uid @ [u])"
  by (simp add: trim_history_hist append_history_def)

lemma butlast_slice_from:
  "butlast (slice_from a (h @ [u])) = drop (norm_index a (Suc (length h))) h"
proof -
  have "butlast (drop (norm_index a (Suc (length h))) (h @ [u]))
          = drop (norm_index a (Suc (length h))) (butlast (h @ [u]))"
    by (rule drop_butlast [symmetric])
  also have "butlast (h @ [u]) = h" by simp
  finally have "butlast (drop (norm_index a (length (h @ [u]))) (h @ [u]))
          = drop (norm_index a (Suc (length h))) h" by simp
  then show ?thesis unfolding slice_from_def .
qed

lemma butlast_trimmed:
  "butlast (if M * 2 < int (length h) + 1 then slice_from (- (M * 2)) (h @ [u]) else h @ [u]) =
     (if 0 < M \<and> 2 * M \<le> int (length h) then drop (length h + 1 - nat (2 * M)) h
      else if M < 0 then drop (nat (- (2 * M))) h
      else h)"
proof -
  consider (limit) "0 < M" "2 * M \<le> int (length h)" | (below) "0 < M" "int (length h) < 2 * M"
    | (zero) "M = 0" | (neg) "M < 0"
    by linarith
  then show ?thesis
  proof cases
    case limit
    have "norm_index (- (M * 2)) (Suc (length h)) = length h + 1 - nat (2 * M)"
      using limit by (simp add: norm_index_def max_def nat_diff_distrib' mult.commute)
    then show ?thesis using limit by (simp add: butlast_slice_from)
  next
    case below
    then show ?thesis by simp
  next
    case zero
    then show ?thesis by (simp add: butlast_slice_from norm_index_def)
  next
    case neg
    have n: "norm_index (- (M * 2)) (Suc (length h)) = min (nat (- (2 * M))) (Suc (length h))"
      using neg by (simp add: norm_index_def mult.commute)
    have "drop (min (nat (- (2 * M))) (Suc (length h))) h = drop (nat (- (2 * M))) h"
      by (cases "nat (- (2 * M)) \<le> Suc (length h)") (simp_all add: min_def)
    then show ?thesis using neg by (simp add: butlast_slice_from n)
  qed
qed

text \<open>
  Claim C1 (failure rollback), as the code has it.  The provider call made by
  \<open>_send_ai_reply\<close> raises, on the history it is given: the history of the user with the
  user turn appended, trimmed.  Then:
  \<^item> when the history held fewer than \<open>2 * MAX_HISTORY\<close> entries before the call, or
    \<open>MAX_HISTORY\<close> is 0, the state after the handler is the state before the call, history
    included; only the trace gained the chat action, the call and the error reply;
  \<^item> in every case the history after the handler is known: for a positive \<open>MAX_HISTORY\<close>
    and a history of \<open>N \<ge> 2 * MAX_HISTORY\<close> entries it is the history before the call
    without its first \<open>N + 1 - 2 * MAX_HISTORY\<close> entries; for a negative \<open>MAX_HISTORY\<close> it
    is the history before the call without its first \<open>- 2 * MAX_HISTORY\<close> entries;
    otherwise it is the history before the call;
  \<^item> so the history after the failed call is the history before the call exactly when it
    held fewer than \<open>2 * MAX_HISTORY\<close> entries, or \<open>MAX_HISTORY\<close> is 0, or it was empty.
\<close>

theorem failed_call_rollback:
  assumes "ask_ai ex cfg (user_history (trim_history cfg uid
             (append_history uid \<lparr>role = ''user'', content = user_parts\<rparr> st)) uid) = Inl exc"
  shows "(int (length (user_history st uid)) < 2 * MAX_HISTORY cfg \<or> MAX_HISTORY cfg = 0 \<longrightarrow>
            send_ai_reply ex cfg uid user_parts st =
              st\<lparr>trace := trace st @ [SendAction ''typing'',
                    AskAI (user_history st uid @ [\<lparr>role = ''user'', content = user_parts\<rparr>]),
                    ReplyAIError exc]\<rparr>)
       \<and> user_history (send_ai_reply ex cfg uid user_parts st) uid =
            (if 0 < MAX_HISTORY cfg \<and> 2 * MAX_HISTORY cfg \<le> int (length (user_history st uid))
             then drop (length (user_history st uid) + 1 - nat (2 * MAX_HISTORY cfg))
                    (user_history st uid)
             else if MAX_HISTORY cfg < 0
             then drop (nat (- (2 * MAX_HISTORY cfg))) (user_history st uid)
             else user_history st uid)
       \<and> (user_history (send_ai_reply ex cfg uid user_parts st) uid = user_history st uid) =
            (int (length (user_history st uid)) < 2 * MAX_HISTORY cfg \<or> MAX_HISTORY cfg = 0
             \<or> user_history st uid = [])"
proof -
  define h where "h = user_history st uid"
  define M where "M = MAX_HISTORY cfg"
  define u where "u = \<lparr>role = ''user'', content = user_parts\<rparr>"
  define st1 where "st1 = append_history uid u st"
  have fail: "ask_ai ex cfg (user_history (trim_history cfg uid st1) uid) = Inl exc"
    using assms unfolding st1_def u_def .
  have whole: "send_ai_reply ex cfg uid user_parts st =
                 st\<lparr>trace := trace st @ [SendAction ''typing'', AskAI (h @ [u]), ReplyAIError exc]\<rparr>"
    if c: "int (length h) < 2 * M \<or> M = 0"
  proof -
    have t: "trim_history cfg uid st1 = st1"
    proof (cases "M = 0")
      case True
      then show ?thesis unfolding M_def by (rule trim_history_zero)
    next
      case False
      with c have "int (length h) < 2 * M" by simp
      then have "int (length (user_history st1 uid)) \<le> MAX_HISTORY cfg * 2"
        unfolding st1_def h_def M_def by (simp add: append_history_def)
      then show ?thesis by (rule trim_history_noop)
    qed
    have f: "ask_ai ex cfg (user_history st1 uid) = Inl exc" using fail unfolding t .
    have "send_ai_reply ex cfg uid user_parts st =
            st\<lparr>trace := trace st @ [SendAction ''typing'',
                  AskAI (user_history st uid @ [\<lparr>role = ''user'', content = user_parts\<rparr>]),
                  ReplyAIError exc]\<rparr>"
      unfolding send_ai_reply_def Let_def t [unfolded st1_def u_def]
      using f [unfolded st1_def u_def] by (simp add: emit_def append_history_def pop_def)
    then show ?thesis unfolding h_def u_def .
  qed
  have "user_history (send_ai_reply ex cfg uid user_parts st) uid =
          butlast (user_history (trim_history cfg uid st1) uid)"
    unfolding st1_def u_def using assms by (rule failed_call_history)
  also have "user_history (trim_history cfg uid st1) uid =
          (if M * 2 < int (length h) + 1 then slice_from (- (M * 2)) (h @ [u]) else h @ [u])"
    unfolding st1_def h_def M_def by (rule trimmed_append)
  also have "butlast (if M * 2 < int (length h) + 1 then slice_from (- (M * 2)) (h @ [u]) else h @ [u]) =
     (if 0 < M \<and> 2 * M \<le> int (length h) then drop (length h + 1 - nat (2 * M)) h
      else if M < 0 then drop (nat (- (2 * M))) h
      else h)"
    by (rule butlast_trimmed)
  finally have hist: "user_history (send_ai_reply ex cfg uid user_parts st) uid =
     (if 0 < M \<and> 2 * M \<le> int (length h) then drop (length h + 1 - nat (2 * M)) h
      else if M < 0 then drop (nat (- (2 * M))) h
      else h)" .
  have same: "(user_history (send_ai_reply ex cfg uid user_parts st) uid = h) =
                (int (length h) < 2 * M \<or> M = 0 \<or> h = [])"
  proof -
    consider (limit) "0 < M" "2 * M \<le> int (length h)" | (neg) "M < 0"
      | (other) "M = 0 \<or> 0 < M \<and> int (length h) < 2 * M"
      by linarith
    then show ?thesis
    proof cases
      case limit
      then have "nat (2 * M) \<le> length h" by linarith
      then have "length h + 1 - nat (2 * M) \<noteq> 0" by arith
      moreover have "h \<noteq> []" using limit by auto
      ultimately show ?thesis using limit by (simp add: hist drop_eq_self_iff)
    next
      case neg
      then have "nat (- (2 * M)) \<noteq> 0" by simp
      then show ?thesis using neg by (simp add: hist drop_eq_self_iff)
    next
      case other
      then show ?thesis by (auto simp: hist)
    qed
  qed
  from whole hist same show ?thesis unfolding h_def M_def u_def by blast
qed

text \<open>
  The theorem at a history of one entry with \<open>MAX_HISTORY = 1\<close>: the provider fails, the
  failed question leaves the history as it was, and the trace holds the chat action, the
  call and the error reply.
\<close>

theorem failed_call_rollback_witness:
  "ask_ai (failing_ext (ProviderError ''down'')) (example_config ''openai'' 1)
      (user_history (trim_history (example_config ''openai'' 1) 7
         (append_history 7 \<lparr>role = ''user'', content = Str ''q2''\<rparr>
            (with_history 7 [user_turn ''q1'']))) 7)
     = Inl (ProviderError ''down'')
   \<and> user_history (send_ai_reply (failing_ext (ProviderError ''down'')) (example_config ''openai'' 1) 7
        (Str ''q2'') (with_history 7 [user_turn ''q1''])) 7 = [user_turn ''q1'']
   \<and> trace (send_ai_reply (failing_ext (ProviderError ''down'')) (example_config ''openai'' 1) 7
        (Str ''q2'') (with_history 7 [user_turn ''q1'']))
       = [SendAction ''typing'', AskAI [user_turn ''q1'', user_turn ''q2''],
          ReplyAIError (ProviderError ''down'')]"
proof -
  have a: "ask_ai (failing_ext (ProviderError ''down'')) (example_config ''openai'' 1)
      (user_history (trim_history (example_config ''openai'' 1) 7
         (append_history 7 \<lparr>role = ''user'', content = Str ''q2''\<rparr>
            (with_history 7 [user_turn ''q1'']))) 7)
     = Inl (ProviderError ''down'')"
    by (simp add: with_history_def example_config_def initial_state_def ask_ai_def ask_openai_def
        openai_request_def build_openai_messages_def each_def openai_item_def ebind_def
        failing_ext_def user_turn_def trim_history_def append_history_def Let_def)
  show ?thesis
    using a failed_call_rollback [OF a]
    by (simp add: with_history_def initial_state_def example_config_def user_turn_def)
qed

text \<open>
  With the history already at its limit the rollback is not exact: \<open>MAX_HISTORY = 1\<close> and
  the history \<open>[q1, r1]\<close>; the question \<open>q2\<close> is appended, the trim before the call drops
  \<open>q1\<close>, the call fails and \<open>q2\<close> is popped: the history is \<open>[r1]\<close>, one entry shorter
  than before the call.
\<close>

theorem failed_call_at_limit_loses_oldest:
  "user_history (send_ai_reply (failing_ext (ProviderError ''down'')) (example_config ''openai'' 1) 7
      (Str ''q2'') (with_history 7 [user_turn ''q1'', assistant_turn ''r1''])) 7
     = [assistant_turn ''r1'']
   \<and> length (user_history (send_ai_reply (failing_ext (ProviderError ''down''))
        (example_config ''openai'' 1) 7 (Str ''q2'')
        (with_history 7 [user_turn ''q1'', assistant_turn ''r1''])) 7)
     \<noteq> length (user_history (with_history 7 [user_turn ''q1'', assistant_turn ''r1'']) 7)"
  by (simp add: send_ai_reply_def trim_history_def append_history_def emit_def pop_def Let_def
      with_history_def example_config_def initial_state_def ask_ai_def ask_openai_def
      openai_request_def build_openai_messages_def each_def openai_item_def ebind_def
      failing_ext_def user_turn_def assistant_turn_def slice_from_def norm_index_def)

subsection \<open>The translation table\<close>

lemma collect_all_Some:
  "(\<And>x. f (h x) = Inr (Some (g x))) \<Longrightarrow> collect f (map h xs) = Inr (map g xs)"
  by (induction xs) (simp_all add: ebind_def)

lemma each_all_Inr: "(\<And>x. f (h x) = Inr (g x)) \<Longrightarrow> each f (map h xs) = Inr (map g xs)"
  unfolding each_def by (rule collect_all_Some) (simp add: ebind_def)

lemma openai_part_internal: "openai_part (internal_part p) = Inr (Some (table_openai_part p))"
  by (cases p) (simp_all add: openai_part_def getitem_def ebind_def make_text_part_def make_pdf_part_def)

lemma gemini_part_internal: "gemini_part (internal_part p) = Inr (Some (table_gemini_part p))"
  by (cases p) (simp_all add: gemini_part_def getitem_def ebind_def make_text_part_def make_pdf_part_def)

lemma anthropic_part_internal: "anthropic_part (internal_part p) = Inr (Some (table_anthropic_part p))"
  by (cases p) (simp_all add: anthropic_part_def getitem_def ebind_def make_text_part_def make_pdf_part_def)

lemma openai_item_internal: "openai_item (internal_item t) = Inr (table_openai t)"
proof (cases t)
  case (Turn r c)
  show ?thesis
    by (cases c; cases r)
       (simp_all add: Turn openai_item_def ebind_def collect_all_Some [of openai_part internal_part, OF openai_part_internal])
qed

lemma gemini_item_internal: "gemini_item (internal_item t) = Inr (table_gemini t)"
proof (cases t)
  case (Turn r c)
  show ?thesis
    by (cases c; cases r)
       (simp_all add: Turn gemini_item_def ebind_def collect_all_Some [of gemini_part internal_part, OF gemini_part_internal])
qed

lemma anthropic_item_internal: "anthropic_item (internal_item t) = Inr (table_anthropic t)"
proof (cases t)
  case (Turn r c)
  show ?thesis
    by (cases c; cases r)
       (simp_all add: Turn anthropic_item_def ebind_def collect_all_Some [of anthropic_part internal_part, OF anthropic_part_internal])
qed

text \<open>
  Claim C4 (adapter translation table).  For every history of turns built from the roles
  User and Assistant, plain strings, and Text, Image and PdfText parts, the three
  serializers of the source return, without raising, exactly the wire values of the table:
  \<open>table_openai\<close>, \<open>table_gemini\<close> and \<open>table_anthropic\<close>, turn by turn and part by part.
\<close>

theorem serializers_follow_table:
  "build_openai_messages (map internal_item h) = Inr (map table_openai h)
   \<and> build_gemini_contents (map internal_item h) = Inr (map table_gemini h)
   \<and> build_anthropic_messages (map internal_item h) = Inr (map table_anthropic h)"
  unfolding build_openai_messages_def build_gemini_contents_def build_anthropic_messages_def
  by (simp add: each_all_Inr [of openai_item internal_item, OF openai_item_internal]
      each_all_Inr [of gemini_item internal_item, OF gemini_item_internal]
      each_all_Inr [of anthropic_item internal_item, OF anthropic_item_internal])

subsection \<open>Parts with an unknown type tag\<close>

lemma collect_filter:
  "(\<And>x. P x \<Longrightarrow> f x = Inr None) \<Longrightarrow> collect f (filter (\<lambda>x. \<not> P x) xs) = collect f xs"
  by (induction xs) (simp_all add: ebind_def split: sum.splits)

lemma collect_length:
  "collect f xs = Inr ws \<Longrightarrow> length ws = length (filter (\<lambda>x. f x \<noteq> Inr None) xs)"
proof (induction xs arbitrary: ws)
  case Nil
  then show ?case by simp
next
  case (Cons x xs)
  then show ?case
    by (auto simp: ebind_def split: sum.splits option.splits)
qed

lemma length_filter_full: "(length (filter P xs) = length xs) = list_all P xs"
proof (induction xs)
  case Nil
  show ?case by simp
next
  case (Cons x xs)
  have le: "length (filter P xs) \<le> length xs" by (rule length_filter_le)
  show ?case
  proof (cases "P x")
    case True
    with Cons show ?thesis by simp
  next
    case False
    have "length (filter P xs) \<noteq> Suc (length xs)" using le by arith
    with False show ?thesis by simp
  qed
qed

lemma openai_part_None: "(openai_part p = Inr None) = unknown_tag p"
  by (auto simp: openai_part_def unknown_tag_def getitem_def ebind_def split: option.splits)

lemma gemini_part_None: "(gemini_part p = Inr None) = unknown_tag p"
  by (auto simp: gemini_part_def unknown_tag_def getitem_def ebind_def split: option.splits)

lemma anthropic_part_None: "(anthropic_part p = Inr None) = unknown_tag p"
  by (auto simp: anthropic_part_def unknown_tag_def getitem_def ebind_def split: option.splits)

lemma openai_item_drop: "openai_item (drop_unknown it) = openai_item it"
  by (cases "content it")
     (simp_all add: openai_item_def drop_unknown_def collect_filter [of unknown_tag openai_part]
        openai_part_None)

lemma gemini_item_drop: "gemini_item (drop_unknown it) = gemini_item it"
  by (cases "content it")
     (simp_all add: gemini_item_def drop_unknown_def collect_filter [of unknown_tag gemini_part]
        gemini_part_None)

lemma anthropic_item_drop: "anthropic_item (drop_unknown it) = anthropic_item it"
  by (cases "content it")
     (simp_all add: anthropic_item_def drop_unknown_def collect_filter [of unknown_tag anthropic_part]
        anthropic_part_None)

lemma each_map: "each f (map g xs) = each (\<lambda>x. f (g x)) xs"
  unfolding each_def by (induction xs) simp_all

lemma collect_count:
  assumes "\<And>p. (f p = Inr None) = unknown_tag p" and "collect f ps = Inr ws"
  shows "(length ws = length ps) = list_all (\<lambda>p. \<not> unknown_tag p) ps"
  using collect_length [OF assms(2)] length_filter_full [of "\<lambda>p. \<not> unknown_tag p" ps]
  by (simp add: assms(1))

lemma serialize_part_eq:
  "serialize_part OpenAI = openai_part" "serialize_part Gemini = gemini_part"
  "serialize_part Anthropic = anthropic_part"
  by (rule ext, simp)+

lemma serialize_turn:
  "serialize a [\<lparr>role = r, content = Parts ps\<rparr>] =
     ebind (collect (serialize_part a) ps) (\<lambda>ws. Inr [wire_turn a r ws])"
proof (cases a)
  case OpenAI
  show ?thesis unfolding OpenAI serialize_part_eq
    by (cases "collect openai_part ps")
       (simp_all add: build_openai_messages_def each_def openai_item_def ebind_def)
next
  case Gemini
  show ?thesis unfolding Gemini serialize_part_eq
    by (cases "collect gemini_part ps")
       (simp_all add: build_gemini_contents_def each_def gemini_item_def ebind_def Let_def)
next
  case Anthropic
  show ?thesis unfolding Anthropic serialize_part_eq
    by (cases "collect anthropic_part ps")
       (simp_all add: build_anthropic_messages_def each_def anthropic_item_def ebind_def)
qed

lemma wire_turn_inject: "(wire_turn a r ws = wire_turn a r ws') = (ws = ws')"
  by (cases a) simp_all

lemma serialize_turn_iff:
  "(serialize a [\<lparr>role = r, content = Parts ps\<rparr>] = Inr [wire_turn a r ws]) =
     (collect (serialize_part a) ps = Inr ws)"
  unfolding serialize_turn
  by (cases "collect (serialize_part a) ps") (simp_all add: ebind_def wire_turn_inject)

lemma openai_part_Some: "(\<exists>w. openai_part p = Inr (Some w)) = known_part p"
  by (auto simp: openai_part_def known_part_def getitem_def ebind_def
      split: option.splits if_splits)

lemma gemini_part_Some: "(\<exists>w. gemini_part p = Inr (Some w)) = known_part p"
  by (auto simp: gemini_part_def known_part_def getitem_def ebind_def
      split: option.splits if_splits)

lemma anthropic_part_Some: "(\<exists>w. anthropic_part p = Inr (Some w)) = known_part p"
  by (auto simp: anthropic_part_def known_part_def getitem_def ebind_def
      split: option.splits if_splits)

lemma serialize_part_Some: "(\<exists>w. serialize_part a p = Inr (Some w)) = known_part p"
  by (cases a) (simp_all add: openai_part_Some gemini_part_Some anthropic_part_Some)

lemma serialize_part_None: "(serialize_part a p = Inr None) = unknown_tag p"
  by (cases a) (simp_all add: openai_part_None gemini_part_None anthropic_part_None)

lemma collect_in_place:
  "\<forall>p\<in>set ps. \<exists>w. f p = Inr (Some w) \<Longrightarrow>
   \<exists>ws. collect f ps = Inr ws \<and> map f ps = map (\<lambda>w. Inr (Some w)) ws"
proof (induction ps)
  case Nil
  show ?case by simp
next
  case (Cons p ps)
  from Cons obtain ws where ws: "collect f ps = Inr ws"
    "map f ps = map (\<lambda>w. Inr (Some w)) ws" by auto
  from Cons.prems obtain w where w: "f p = Inr (Some w)" by auto
  have "collect f (p # ps) = Inr (w # ws)
        \<and> map f (p # ps) = map (\<lambda>w. Inr (Some w)) (w # ws)"
    using ws w by (simp add: ebind_def)
  then show ?case by blast
qed

lemma in_place_Some:
  assumes "map f ps = map (\<lambda>w. Inr (Some w)) ws" and "p \<in> set ps"
  shows "\<exists>w. f p = Inr (Some w)"
proof -
  have "f p \<in> set (map f ps)" using assms(2) by simp
  then have "f p \<in> set (map (\<lambda>w. Inr (Some w)) ws)" unfolding assms(1) .
  then show ?thesis by auto
qed

lemma in_place_iff:
  "(\<exists>ws. serialize a [\<lparr>role = r, content = Parts ps\<rparr>] = Inr [wire_turn a r ws]
         \<and> map (serialize_part a) ps = map (\<lambda>w. Inr (Some w)) ws)
     = list_all known_part ps"
proof
  assume "\<exists>ws. serialize a [\<lparr>role = r, content = Parts ps\<rparr>] = Inr [wire_turn a r ws]
         \<and> map (serialize_part a) ps = map (\<lambda>w. Inr (Some w)) ws"
  then obtain ws where m: "map (serialize_part a) ps = map (\<lambda>w. Inr (Some w)) ws" by blast
  have "known_part p" if "p \<in> set ps" for p
    using in_place_Some [OF m that] by (simp add: serialize_part_Some)
  then show "list_all known_part ps" by (simp add: list_all_iff)
next
  assume "list_all known_part ps"
  then have "\<forall>p\<in>set ps. \<exists>w. serialize_part a p = Inr (Some w)"
    by (simp add: list_all_iff serialize_part_Some)
  then obtain ws where ws: "collect (serialize_part a) ps = Inr ws"
    "map (serialize_part a) ps = map (\<lambda>w. Inr (Some w)) ws"
    using collect_in_place [of ps "serialize_part a"] by blast
  have "serialize a [\<lparr>role = r, content = Parts ps\<rparr>] = Inr [wire_turn a r ws]"
    using ws(1) by (simp add: serialize_turn_iff)
  with ws(2) show "\<exists>ws. serialize a [\<lparr>role = r, content = Parts ps\<rparr>] = Inr [wire_turn a r ws]
         \<and> map (serialize_part a) ps = map (\<lambda>w. Inr (Some w)) ws" by blast
qed

lemma serialize_drop_unknown: "serialize a (map drop_unknown h) = serialize a h"
  by (cases a)
     (simp_all add: build_openai_messages_def build_gemini_contents_def
        build_anthropic_messages_def each_map openai_item_drop gemini_item_drop
        anthropic_item_drop)

lemma known_construct: "known_part (construct c)"
  by (cases c) (simp_all add: known_part_def make_text_part_def make_pdf_part_def
      encode_image_bytes_def)

lemma construct_internal: "construct c = internal_part (ctor_part c)"
  by (cases c) (simp_all add: encode_image_bytes_def)

lemma serialize_part_construct:
  "serialize_part a (construct c) = Inr (Some (table_part a (ctor_part c)))"
  unfolding construct_internal
  by (cases a) (simp_all add: openai_part_internal gemini_part_internal anthropic_part_internal)

lemma serialize_item_eq:
  "serialize_item OpenAI = openai_item" "serialize_item Gemini = gemini_item"
  "serialize_item Anthropic = anthropic_item"
  by (rule ext, simp)+

lemma serialize_each: "serialize a h = each (serialize_item a) h"
  by (cases a)
     (simp_all add: serialize_item_eq build_openai_messages_def build_gemini_contents_def
        build_anthropic_messages_def)

lemma serialize_item_parts:
  "serialize_item a \<lparr>role = r, content = Parts ps\<rparr> =
     ebind (collect (serialize_part a) ps) (\<lambda>ws. Inr (wire_turn a r ws))"
  by (cases a)
     (simp_all add: serialize_part_eq openai_item_def gemini_item_def anthropic_item_def Let_def)

lemma serialize_item_constructed:
  "serialize_item a \<lparr>role = r, content = Parts (map construct cs)\<rparr> =
     Inr (wire_turn a r (map (table_part a) (map ctor_part cs)))"
proof -
  have "collect (serialize_part a) (map construct cs) = Inr (map (\<lambda>c. table_part a (ctor_part c)) cs)"
    by (rule collect_all_Some) (rule serialize_part_construct)
  then show ?thesis by (simp add: serialize_item_parts ebind_def comp_def)
qed

lemma serialize_constructed:
  "serialize a (map (\<lambda>(r, cs). \<lparr>role = r, content = Parts (map construct cs)\<rparr>) turns) =
     Inr (map (\<lambda>(r, cs). wire_turn a r (map (table_part a) (map ctor_part cs))) turns)"
  unfolding serialize_each
  by (rule each_all_Inr
        [of "serialize_item a" "\<lambda>(r, cs). \<lparr>role = r, content = Parts (map construct cs)\<rparr>"
            "\<lambda>(r, cs). wire_turn a r (map (table_part a) (map ctor_part cs))" turns])
     (simp add: split_beta serialize_item_constructed)

text \<open>
  Claim C10 (parts with an unknown type tag), as the code has it.  For each of the three
  serializers:
  \<^item> removing from every turn of a history the parts whose \<open>type\<close> is none of \<open>text\<close>,
    \<open>image_b64\<close> and \<open>pdf_text\<close> changes nothing in what the serializer returns: such a
    part raises nothing and emits nothing;
  \<^item> the serializer returns, for a turn with the parts \<open>ps\<close>, the wire turn that holds one
    wire part for each part and in the same order (the wire part at a position is what the
    part at that position is serialized to) exactly when every part is known, that is, has
    one of the three tags and the fields read for that tag;
  \<^item> whenever the serializer returns the wire turn with the wire parts \<open>ws\<close>, there are as
    many wire parts as parts exactly when no part has an unknown tag;
  \<^item> the parts built by \<open>make_text_part\<close>, \<open>encode_image_bytes\<close> and \<open>make_pdf_part\<close>
    are known, and a history of turns of such parts is serialized, turn by turn and in the
    order of the history, to the wire parts the table gives for them, one for each part and
    in the order of the parts.
\<close>

theorem serializers_drop_unknown_parts:
  "serialize a (map drop_unknown h) = serialize a h
   \<and> ((\<exists>ws. serialize a [\<lparr>role = r, content = Parts ps\<rparr>] = Inr [wire_turn a r ws]
            \<and> map (serialize_part a) ps = map (\<lambda>w. Inr (Some w)) ws)
        = list_all known_part ps)
   \<and> (serialize a [\<lparr>role = r, content = Parts ps\<rparr>] = Inr [wire_turn a r wsp] \<longrightarrow>
         (length wsp = length ps) = list_all (\<lambda>p. \<not> unknown_tag p) ps)
   \<and> list_all known_part (map construct cs)
   \<and> serialize a (map (\<lambda>(r, cs). \<lparr>role = r, content = Parts (map construct cs)\<rparr>) turns) =
        Inr (map (\<lambda>(r, cs). wire_turn a r (map (table_part a) (map ctor_part cs))) turns)"
proof -
  have c3: "(length wsp = length ps) = list_all (\<lambda>p. \<not> unknown_tag p) ps"
    if "serialize a [\<lparr>role = r, content = Parts ps\<rparr>] = Inr [wire_turn a r wsp]"
  proof -
    have "collect (serialize_part a) ps = Inr wsp" using that by (simp add: serialize_turn_iff)
    then show ?thesis by (rule collect_count [OF serialize_part_None])
  qed
  have c4: "list_all known_part (map construct cs)"
    by (simp add: list_all_iff known_construct)
  from serialize_drop_unknown [of a h] in_place_iff [of a r ps] c3 c4 serialize_constructed [of a turns]
  show ?thesis by blast
qed

text \<open>
  The theorem at the Gemini serializer: a turn that holds a text part and a part tagged
  \<open>audio\<close> is serialized to one wire part, and a history of a turn with a text part and
  an image and a turn with a PDF part to two wire turns of two and one wire parts, in order.
\<close>

theorem serializers_drop_unknown_parts_witness:
  "serialize Gemini [\<lparr>role = ''user'', content = Parts [make_text_part ''a'', [(''type'', ''audio'')]]\<rparr>]
     = Inr [wire_turn Gemini ''user'' [JDict [(''text'', JStr ''a'')]]]
   \<and> (length [JDict [(''text'', JStr ''a'')]] = length [make_text_part ''a'', [(''type'', ''audio'')]])
        = list_all (\<lambda>p. \<not> unknown_tag p) [make_text_part ''a'', [(''type'', ''audio'')]]
   \<and> serialize Gemini
       [\<lparr>role = ''user'',
         content = Parts [make_text_part ''a'', encode_image_bytes ''Man'' ''image/png'']\<rparr>,
        \<lparr>role = ''assistant'', content = Parts [make_pdf_part ''b'']\<rparr>]
     = Inr [wire_turn Gemini ''user''
              [JDict [(''text'', JStr ''a'')],
               JDict [(''inlineData'', JDict [(''mimeType'', JStr ''image/png''),
                                             (''data'', JStr (b64encode ''Man''))])]],
            wire_turn Gemini ''assistant''
              [JDict [(''text'', JStr (''[PDF Content]\<newline>'' @ ''b''))]]]"
proof -
  have g: "serialize Gemini [\<lparr>role = ''user'', content = Parts [make_text_part ''a'', [(''type'', ''audio'')]]\<rparr>]
     = Inr [wire_turn Gemini ''user'' [JDict [(''text'', JStr ''a'')]]]"
    by (simp add: build_gemini_contents_def each_def gemini_item_def gemini_part_def getitem_def
        ebind_def make_text_part_def Let_def)
  note t = serializers_drop_unknown_parts [where a = Gemini and r = "''user''"
      and ps = "[make_text_part ''a'', [(''type'', ''audio'')]]"
      and wsp = "[JDict [(''text'', JStr ''a'')]]"
      and cs = "[]" and h = "[]"
      and turns = "[(''user'', [MakeText ''a'', EncodeImage ''Man'' ''image/png'']),
                    (''assistant'', [MakePdf ''b''])]"]
  have c: "(length [JDict [(''text'', JStr ''a'')]] = length [make_text_part ''a'', [(''type'', ''audio'')]])
        = list_all (\<lambda>p. \<not> unknown_tag p) [make_text_part ''a'', [(''type'', ''audio'')]]"
    using t g by blast
  have "serialize Gemini (map (\<lambda>(r, cs). \<lparr>role = r, content = Parts (map construct cs)\<rparr>)
            [(''user'', [MakeText ''a'', EncodeImage ''Man'' ''image/png'']),
             (''assistant'', [MakePdf ''b''])])
        = Inr (map (\<lambda>(r, cs). wire_turn Gemini r (map (table_part Gemini) (map ctor_part cs)))
            [(''user'', [MakeText ''a'', EncodeImage ''Man'' ''image/png'']),
             (''assistant'', [MakePdf ''b''])])"
    using t by blast
  then have d: "serialize Gemini
       [\<lparr>role = ''user'',
         content = Parts [make_text_part ''a'', encode_image_bytes ''Man'' ''image/png'']\<rparr>,
        \<lparr>role = ''assistant'', content = Parts [make_pdf_part ''b'']\<rparr>]
     = Inr [wire_turn Gemini ''user''
              [JDict [(''text'', JStr ''a'')],
               JDict [(''inlineData'', JDict [(''mimeType'', JStr ''image/png''),
                                             (''data'', JStr (b64encode ''Man''))])]],
            wire_turn Gemini ''assistant''
              [JDict [(''text'', JStr (''[PDF Content]\<newline>'' @ ''b''))]]]"
    by simp
  from g c d show ?thesis by blast
qed

text \<open>
  Number and order are also preserved for parts that none of the three functions built: the
  part with the entries \<open>type = text\<close>, \<open>text = a\<close> and \<open>lang = en\<close> is the result of none
  of them, and the OpenAI serializer emits one wire part for it.
\<close>

theorem unconstructed_part_is_serialized:
  "[(''type'', ''text''), (''text'', ''a''), (''lang'', ''en'')] \<notin> range construct
   \<and> build_openai_messages
        [\<lparr>role = ''user'',
          content = Parts [[(''type'', ''text''), (''text'', ''a''), (''lang'', ''en'')]]\<rparr>]
      = Inr [JDict [(''role'', JStr ''user''),
                    (''content'', JList [JDict [(''type'', JStr ''text''), (''text'', JStr ''a'')]])]]"
proof -
  have "construct c \<noteq> [(''type'', ''text''), (''text'', ''a''), (''lang'', ''en'')]" for c
    by (cases c) (simp_all add: make_text_part_def make_pdf_part_def encode_image_bytes_def)
  then have a: "[(''type'', ''text''), (''text'', ''a''), (''lang'', ''en'')] \<notin> range construct"
    by (metis rangeE)
  have b: "build_openai_messages
        [\<lparr>role = ''user'',
          content = Parts [[(''type'', ''text''), (''text'', ''a''), (''lang'', ''en'')]]\<rparr>]
      = Inr [JDict [(''role'', JStr ''user''),
                    (''content'', JList [JDict [(''type'', JStr ''text''), (''text'', JStr ''a'')]])]]"
    by (simp add: build_openai_messages_def each_def openai_item_def openai_part_def getitem_def
        ebind_def)
  from a b show ?thesis by (rule conjI)
qed

subsection \<open>Extracting the reply\<close>

lemma each_total:
  "(\<And>x. x \<in> set xs \<Longrightarrow> \<exists>y. f x = Inr y) \<Longrightarrow> \<exists>ys. each f xs = Inr ys"
proof (induction xs)
  case Nil
  show ?case by (simp add: each_def)
next
  case (Cons x xs)
  obtain y where y: "f x = Inr y" using Cons.prems by auto
  obtain ys where ys: "each f xs = Inr ys" using Cons by auto
  show ?case using y ys by (simp add: each_def ebind_def)
qed

lemma plain_openai: "plain_text_only h \<Longrightarrow> \<exists>ms. build_openai_messages h = Inr ms"
  unfolding build_openai_messages_def
  by (rule each_total) (auto simp: plain_text_only_def list_all_iff openai_item_def split: content.splits)

lemma plain_gemini: "plain_text_only h \<Longrightarrow> \<exists>ms. build_gemini_contents h = Inr ms"
  unfolding build_gemini_contents_def
  by (rule each_total) (auto simp: plain_text_only_def list_all_iff gemini_item_def ebind_def split: content.splits)

lemma plain_anthropic: "plain_text_only h \<Longrightarrow> \<exists>ms. build_anthropic_messages h = Inr ms"
  unfolding build_anthropic_messages_def
  by (rule each_total) (auto simp: plain_text_only_def list_all_iff anthropic_item_def split: content.splits)

lemma dropWhile_id_iff: "(dropWhile P xs = xs) = (xs = [] \<or> \<not> P (hd xs))"
proof (cases xs)
  case Nil
  then show ?thesis by simp
next
  case (Cons x ys)
  have "length (dropWhile P ys) \<le> length ys" by (rule length_dropWhile_le)
  then have "dropWhile P ys \<noteq> x # ys" by auto
  then show ?thesis by (simp add: Cons)
qed

lemma strip_id_iff: "(strip t = t) = (t = [] \<or> \<not> isspace (hd t) \<and> \<not> isspace (last t))"
proof (cases "dropWhile isspace t = t")
  case True
  have "(strip t = t) = (dropWhile isspace (rev t) = rev t)"
    unfolding strip_def True by (metis rev_rev_ident)
  also have "\<dots> = (rev t = [] \<or> \<not> isspace (hd (rev t)))" by (rule dropWhile_id_iff)
  finally show ?thesis using True by (auto simp: hd_rev dropWhile_id_iff)
next
  case False
  have "length (strip t) \<le> length (dropWhile isspace t)"
    unfolding strip_def using length_dropWhile_le [of isspace "rev (dropWhile isspace t)"] by simp
  moreover have "length (dropWhile isspace t) < length t"
  proof -
    have "length (dropWhile isspace t) \<le> length t" by (rule length_dropWhile_le)
    moreover have "length (dropWhile isspace t) \<noteq> length t"
    proof
      assume e: "length (dropWhile isspace t) = length t"
      have "takeWhile isspace t @ dropWhile isspace t = t" by simp
      then have "length (takeWhile isspace t) + length (dropWhile isspace t) = length t"
        by (metis length_append)
      with e have "takeWhile isspace t = []" by simp
      then have "dropWhile isspace t = t" by (metis append_Nil takeWhile_dropWhile_id)
      with False show False by simp
    qed
    ultimately show ?thesis by arith
  qed
  ultimately have "strip t \<noteq> t" by auto
  then show ?thesis using False by (auto simp: dropWhile_id_iff)
qed

text \<open>
  Claim C5 (round trip through the adapter boundary), as the code has it.  For a
  plain-text-only history, each of the four adapters serializes the history without
  raising, and what it extracts from a synthetic response whose reply field holds \<open>t\<close> is
  \<open>t\<close> with the white space at both ends removed.  This is \<open>t\<close> itself exactly when \<open>t\<close>
  is empty or neither starts nor ends with white space.
\<close>

theorem reply_is_stripped_text:
  assumes "plain_text_only history"
  shows "ask_openai (synthetic_ext t) cfg history = Inr (strip t)
       \<and> ask_openrouter (synthetic_ext t) cfg history = Inr (strip t)
       \<and> ask_gemini (synthetic_ext t) cfg history = Inr (strip t)
       \<and> ask_anthropic (synthetic_ext t) cfg history = Inr (strip t)
       \<and> (strip t = t) = (t = [] \<or> \<not> isspace (hd t) \<and> \<not> isspace (last t))"
proof -
  obtain m1 where m1: "build_openai_messages history = Inr m1"
    using plain_openai [OF assms] by blast
  obtain m2 where m2: "build_gemini_contents history = Inr m2"
    using plain_gemini [OF assms] by blast
  obtain m3 where m3: "build_anthropic_messages history = Inr m3"
    using plain_anthropic [OF assms] by blast
  have a: "ask_openai (synthetic_ext t) cfg history = Inr (strip t)"
    by (simp add: ask_openai_def openai_request_def m1 ebind_def synthetic_ext_def openai_reply_def)
  have b: "ask_openrouter (synthetic_ext t) cfg history = Inr (strip t)"
    by (simp add: ask_openrouter_def openrouter_request_def m1 ebind_def synthetic_ext_def openai_reply_def)
  have c: "ask_gemini (synthetic_ext t) cfg history = Inr (strip t)"
    by (simp add: ask_gemini_def m2 ebind_def synthetic_ext_def gemini_reply_def jkey_def
        jfirst_def jstrip_def)
  have d: "ask_anthropic (synthetic_ext t) cfg history = Inr (strip t)"
    by (simp add: ask_anthropic_def m3 ebind_def synthetic_ext_def anthropic_reply_def)
  show ?thesis using a b c d strip_id_iff [of t] by blast
qed

text \<open>
  The theorem at the reply \<open>" hi there"\<close>.
\<close>

theorem reply_is_stripped_text_witness:
  "plain_text_only [user_turn '' hi there'']
   \<and> ask_openai (synthetic_ext '' hi there'') (example_config ''openai'' 20) [user_turn '' hi there''] = Inr ''hi there''
   \<and> ask_gemini (synthetic_ext '' hi there'') (example_config ''openai'' 20) [user_turn '' hi there''] = Inr ''hi there''"
proof -
  have p: "plain_text_only [user_turn '' hi there'']"
    by (simp add: plain_text_only_def user_turn_def)
  have s: "strip '' hi there'' = ''hi there''"
    by (simp add: strip_def isspace_def)
  show ?thesis
    using p reply_is_stripped_text [OF p, of "'' hi there''" "example_config ''openai'' 20"]
    by (simp add: s)
qed

text \<open>
  The reply \<open>" hi"\<close> does not come back unchanged: the adapter returns \<open>"hi"\<close>.
\<close>

theorem reply_loses_leading_space:
  "ask_openai (synthetic_ext '' hi'') (example_config ''openai'' 20) [user_turn '' hi'']
     \<noteq> Inr '' hi''"
  by (simp add: ask_openai_def openai_request_def build_openai_messages_def each_def
      openai_item_def user_turn_def ebind_def synthetic_ext_def openai_reply_def strip_def
      isspace_def)

subsection \<open>Chunking\<close>

declare range_up.simps [simp del]

lemma slice_nonneg:
  "0 \<le> i \<Longrightarrow> 0 \<le> n \<Longrightarrow> slice i (i + n) xs = take (nat n) (drop (nat i) xs)"
  by (auto simp: slice_def norm_index_def Let_def min_def nat_add_distrib)

lemma range_up_concat:
  "0 < s \<Longrightarrow> 0 \<le> i \<Longrightarrow> int (length xs) \<le> stop \<Longrightarrow>
   concat (map (\<lambda>j. slice j (j + s) xs) (range_up i stop s)) = drop (nat i) xs"
proof (induction i stop s rule: range_up.induct)
  case (1 i stop step)
  show ?case
  proof (cases "i < stop")
    case True
    have "concat (map (\<lambda>j. slice j (j + step) xs) (range_up i stop step))
          = slice i (i + step) xs @ drop (nat (i + step)) xs"
      using 1 True by (subst range_up.simps) simp
    also have "\<dots> = take (nat step) (drop (nat i) xs) @ drop (nat step) (drop (nat i) xs)"
      using 1(2,3) by (simp add: slice_nonneg nat_add_distrib add.commute)
    also have "\<dots> = drop (nat i) xs" by (rule append_take_drop_id)
    finally show ?thesis .
  next
    case False
    then show ?thesis using 1(4) by (subst range_up.simps) simp
  qed
qed

lemma range_up_length:
  "0 < s \<Longrightarrow> length (range_up i stop s) = nat ((stop - i + s - 1) div s)"
proof (induction i stop s rule: range_up.induct)
  case (1 i stop step)
  show ?case
  proof (cases "i < stop")
    case True
    have nn: "0 \<le> (stop - i - 1) div step"
      using True 1(2) by (simp add: pos_imp_zdiv_nonneg_iff)
    have "(stop - i + step - 1) div step = (stop - i - 1) div step + 1"
      using 1(2) by (metis add.commute add_diff_eq diff_add_eq div_add_self1 less_irrefl)
    then show ?thesis
      using 1 True nn by (subst range_up.simps) (simp add: nat_add_distrib algebra_simps)
  next
    case False
    then have "stop - i + step - 1 < step" by simp
    then have "(stop - i + step - 1) div step \<le> 0"
    proof (cases "0 \<le> stop - i + step - 1")
      case True
      then show ?thesis using 1(2) \<open>stop - i + step - 1 < step\<close>
        by (simp add: div_pos_pos_trivial)
    next
      case False
      then have "(stop - i + step - 1) div step < 0"
        using 1(2) by (simp add: pos_imp_zdiv_neg_iff)
      then show ?thesis by simp
    qed
    then show ?thesis using False by (subst range_up.simps) simp
  qed
qed

lemma range_up_nth:
  "0 < s \<Longrightarrow> k < length (range_up i stop s) \<Longrightarrow> range_up i stop s ! k = i + int k * s"
proof (induction i stop s arbitrary: k rule: range_up.induct)
  case (1 i stop step)
  show ?case
  proof (cases "i < stop")
    case True
    then have unf: "range_up i stop step = i # range_up (i + step) stop step"
      using 1(2) by (subst range_up.simps) simp
    show ?thesis
    proof (cases k)
      case 0
      then show ?thesis by (simp add: unf)
    next
      case (Suc k')
      then have "k' < length (range_up (i + step) stop step)" using 1(3) unf by simp
      then have "range_up (i + step) stop step ! k' = i + step + int k' * step"
        using 1(1) [of k'] True 1(2) by simp
      then show ?thesis by (simp add: unf Suc algebra_simps)
    qed
  next
    case False
    then have "range_up i stop step = []" by (subst range_up.simps) simp
    then show ?thesis using 1(3) by simp
  qed
qed

lemma range_up_bound:
  "x \<in> set (range_up i stop s) \<Longrightarrow> x < stop"
proof (induction i stop s rule: range_up.induct)
  case (1 i stop step)
  show ?case
  proof (cases "0 < step \<and> i < stop")
    case True
    then have unf: "range_up i stop step = i # range_up (i + step) stop step"
      by (subst range_up.simps) simp
    with 1 True show ?thesis by auto
  next
    case False
    then have "range_up i stop step = []" by (subst range_up.simps) simp
    with 1(2) show ?thesis by simp
  qed
qed

lemma ceiling_div:
  fixes a b :: int
  assumes "0 < b"
  shows "\<lceil>real_of_int a / real_of_int b\<rceil> = (a + b - 1) div b"
proof (rule ceiling_unique)
  let ?n = "(a + b - 1) div b"
  have m: "?n * b + (a + b - 1) mod b = a + b - 1" by simp
  have m0: "0 \<le> (a + b - 1) mod b" using assms by simp
  have m1: "(a + b - 1) mod b < b" using assms by simp
  have nb: "?n * b \<le> a + b - 1" using m m0 by linarith
  have nb2: "a + b - 1 < ?n * b + b" using m m1 by linarith
  have lo: "(?n - 1) * b < a" using nb by (simp add: left_diff_distrib)
  have hi: "a \<le> ?n * b" using nb2 by linarith
  have "real_of_int ((?n - 1) * b) < real_of_int a" using lo by linarith
  then show "real_of_int ?n - 1 < real_of_int a / real_of_int b"
    using assms by (simp add: pos_less_divide_eq)
  have "real_of_int a \<le> real_of_int (?n * b)" using hi by linarith
  then show "real_of_int a / real_of_int b \<le> real_of_int ?n"
    using assms by (simp add: pos_divide_le_eq)
qed

lemma split_Inr:
  "0 < S \<Longrightarrow>
   split text S = Inr (map (\<lambda>i. slice i (i + S) text) (range_up 0 (max (int (length text)) 1) S))"
  by (simp add: split_def py_range_def ebind_def)

lemma chunk_nth:
  assumes "0 < S" and "k < length (range_up 0 stop S)"
  shows "map (\<lambda>i. slice i (i + S) text) (range_up 0 stop S) ! k
           = take (nat S) (drop (k * nat S) text)"
proof -
  have s: "range_up 0 stop S ! k = int k * S"
    using range_up_nth [OF assms] by simp
  have n0: "0 \<le> int k * S" using assms(1) by simp
  have n1: "0 \<le> S" using assms(1) by simp
  have "map (\<lambda>i. slice i (i + S) text) (range_up 0 stop S) ! k
          = slice (range_up 0 stop S ! k) (range_up 0 stop S ! k + S) text"
    using assms(2) by (rule nth_map)
  also have "\<dots> = slice (int k * S) (int k * S + S) text"
    unfolding s by (rule refl)
  also have "\<dots> = take (nat S) (drop (nat (int k * S)) text)"
    using n0 n1 by (rule slice_nonneg)
  also have "nat (int k * S) = k * nat S" by (simp add: nat_mult_distrib)
  finally show ?thesis .
qed

lemma chunk_full:
  assumes "0 < S" and "Suc k < length (range_up 0 (max (int (length text)) 1) S)"
  shows "length (map (\<lambda>i. slice i (i + S) text) (range_up 0 (max (int (length text)) 1) S) ! k)
           = nat S"
proof -
  define stop where "stop = max (int (length text)) 1"
  define starts where "starts = range_up 0 stop S"
  have k1: "Suc k < length starts" using assms(2) unfolding starts_def stop_def .
  then have k0: "k < length starts" by simp
  have "starts ! Suc k \<in> set starts" using k1 by (rule nth_mem)
  then have "starts ! Suc k < stop" unfolding starts_def by (rule range_up_bound)
  moreover have "starts ! Suc k = int (Suc k) * S"
    using range_up_nth [OF assms(1), of "Suc k" 0 stop] k1 unfolding starts_def by simp
  ultimately have b: "int (Suc k) * S < stop" by simp
  have "1 * S \<le> int (Suc k) * S" using assms(1) by (intro mult_right_mono) simp_all
  then have "1 \<le> int (Suc k) * S" using assms(1) by linarith
  with b have lt: "int (Suc k) * S < int (length text)" unfolding stop_def by linarith
  have e0: "int (nat S) = S" using assms(1) by simp
  have eq: "int (Suc k * nat S) = int (Suc k) * S"
    unfolding of_nat_mult e0 by (rule refl)
  have "int (Suc k * nat S) < int (length text)" unfolding eq by (rule lt)
  then have "Suc k * nat S < length text" by (simp only: of_nat_less_iff)
  then have "nat S + k * nat S < length text" by simp
  then have r: "nat S \<le> length text - k * nat S" by arith
  have "map (\<lambda>i. slice i (i + S) text) starts ! k = take (nat S) (drop (k * nat S) text)"
    using assms(1) k0 unfolding starts_def by (rule chunk_nth)
  then have "length (map (\<lambda>i. slice i (i + S) text) starts ! k)
               = min (length text - k * nat S) (nat S)"
    by (simp only: length_take length_drop)
  also have "\<dots> = nat S" using r by (rule min_absorb2)
  finally show ?thesis unfolding starts_def stop_def .
qed

lemma chunk_le:
  assumes "0 < S" and "k < length (range_up 0 stop S)"
  shows "length (map (\<lambda>i. slice i (i + S) text) (range_up 0 stop S) ! k) \<le> nat S"
  unfolding chunk_nth [OF assms] by simp

lemma chunk_count:
  assumes "0 < S"
  shows "int (length (map (\<lambda>i. slice i (i + S) text) (range_up 0 (max (int (length text)) 1) S)))
           = \<lceil>real_of_int (max (int (length text)) 1) / real_of_int S\<rceil>"
proof -
  define stop where "stop = max (int (length text)) 1"
  have p: "1 \<le> stop" unfolding stop_def by simp
  have l1: "length (range_up 0 stop S) = nat ((stop - 0 + S - 1) div S)"
    using assms by (rule range_up_length)
  have l2: "\<lceil>real_of_int stop / real_of_int S\<rceil> = (stop + S - 1) div S"
    using assms by (rule ceiling_div)
  have "0 \<le> stop + S - 1" using p assms by linarith
  then have nn: "0 \<le> (stop + S - 1) div S"
    using assms by (simp only: pos_imp_zdiv_nonneg_iff)
  have "int (length (map (\<lambda>i. slice i (i + S) text) (range_up 0 stop S)))
          = int (nat ((stop + S - 1) div S))"
    using l1 by simp
  also have "\<dots> = (stop + S - 1) div S" using nn by simp
  also have "\<dots> = \<lceil>real_of_int stop / real_of_int S\<rceil>" by (rule l2 [symmetric])
  finally show ?thesis unfolding stop_def .
qed

lemma chunk_first:
  assumes "0 < S"
  shows "range_up 0 (max (int (length text)) 1) S = 0 # range_up S (max (int (length text)) 1) S"
  using assms by (subst range_up.simps) simp

lemma chunk_empty:
  assumes "0 < S"
  shows "map (\<lambda>i. slice i (i + S) ([] :: 'a list)) (range_up 0 (max (int (length ([] :: 'a list))) 1) S)
           = [[]]"
proof -
  have a: "range_up 0 1 S = 0 # range_up S 1 S"
    using assms by (subst range_up.simps) simp
  have b: "range_up S 1 S = []"
    using assms by (subst range_up.simps) simp
  have c: "slice 0 (0 + S) ([] :: 'a list) = []" by (simp add: slice_def)
  have d: "max (int (length ([] :: 'a list))) 1 = 1" by simp
  show ?thesis unfolding d a b using c by simp
qed

text \<open>
  Claim C6 (chunking).  For every text of length \<open>L\<close> and every chunk size \<open>S > 0\<close>,
  \<open>_split\<close> returns, without raising, \<open>\<lceil>max L 1 / S\<rceil>\<close> chunks whose concatenation in
  order is the text; every chunk but the last has length \<open>S\<close> and none is longer; there is
  always at least one chunk, and the empty text gives exactly one empty chunk.
\<close>

theorem split_chunks:
  assumes "0 < S"
  shows "\<exists>chunks. split text S = Inr chunks
      \<and> int (length chunks) = \<lceil>real_of_int (max (int (length text)) 1) / real_of_int S\<rceil>
      \<and> concat chunks = text
      \<and> (\<forall>k. Suc k < length chunks \<longrightarrow> length (chunks ! k) = nat S)
      \<and> (\<forall>k < length chunks. length (chunks ! k) \<le> nat S)
      \<and> chunks \<noteq> []
      \<and> (text = [] \<longrightarrow> chunks = [[]])"
proof -
  define cs where
    "cs = map (\<lambda>i. slice i (i + S) text) (range_up 0 (max (int (length text)) 1) S)"
  have len_cs: "length cs = length (range_up 0 (max (int (length text)) 1) S)"
    unfolding cs_def by (rule length_map)
  have sp: "split text S = Inr cs"
    unfolding cs_def using assms by (rule split_Inr)
  have len: "int (length cs) = \<lceil>real_of_int (max (int (length text)) 1) / real_of_int S\<rceil>"
    unfolding cs_def using assms by (rule chunk_count)
  have "concat cs = drop (nat 0) text"
    unfolding cs_def by (rule range_up_concat) (use assms in simp_all)
  then have cc: "concat cs = text" by simp
  have full: "\<forall>k. Suc k < length cs \<longrightarrow> length (cs ! k) = nat S"
  proof (intro allI impI)
    fix k
    assume "Suc k < length cs"
    then have "Suc k < length (range_up 0 (max (int (length text)) 1) S)"
      unfolding len_cs .
    with assms show "length (cs ! k) = nat S" unfolding cs_def by (rule chunk_full)
  qed
  have le: "\<forall>k < length cs. length (cs ! k) \<le> nat S"
  proof (intro allI impI)
    fix k
    assume "k < length cs"
    then have "k < length (range_up 0 (max (int (length text)) 1) S)"
      unfolding len_cs .
    with assms show "length (cs ! k) \<le> nat S" unfolding cs_def by (rule chunk_le)
  qed
  have ne: "cs \<noteq> []"
    unfolding cs_def chunk_first [OF assms] by simp
  have emp: "text = [] \<longrightarrow> cs = [[]]"
  proof
    assume t: "text = []"
    show "cs = [[]]" unfolding cs_def t using assms by (rule chunk_empty)
  qed
  from sp len cc full le ne emp show ?thesis by blast
qed

text \<open>
  The theorem at the text \<open>"abcdefg"\<close> and the chunk size 3: three chunks that
  concatenate to the text.
\<close>

theorem split_chunks_witness:
  "0 < (3::int) \<and> (\<exists>chunks. split ''abcdefg'' 3 = Inr chunks
      \<and> int (length chunks) = 3 \<and> concat chunks = ''abcdefg'' \<and> chunks \<noteq> [])"
proof -
  have h: "0 < (3::int)" by simp
  have c: "\<lceil>real_of_int (max (int (length ''abcdefg'')) 1) / real_of_int 3\<rceil> = 3"
    using ceiling_div [of 3 7] by simp
  from split_chunks [OF h, of "''abcdefg''"] obtain chunks where
    "split ''abcdefg'' 3 = Inr chunks"
    "int (length chunks) = \<lceil>real_of_int (max (int (length ''abcdefg'')) 1) / real_of_int 3\<rceil>"
    "concat chunks = ''abcdefg''" "chunks \<noteq> []"
    by blast
  then have "split ''abcdefg'' 3 = Inr chunks \<and> int (length chunks) = 3
      \<and> concat chunks = ''abcdefg'' \<and> chunks \<noteq> []"
    unfolding c by blast
  then have "\<exists>chunks. split ''abcdefg'' 3 = Inr chunks \<and> int (length chunks) = 3
      \<and> concat chunks = ''abcdefg'' \<and> chunks \<noteq> []" by (rule exI)
  with h show ?thesis by (rule conjI)
qed

subsection \<open>Media groups\<close>










end
